theory Spec2Isabelle
  imports Main
begin

chapter \<open>The check command of krakend-cobra\<close>

text \<open>
  A model of \<^verbatim>\<open>check.go\<close>: the version in the online schema location
  (\<^verbatim>\<open>getVersionMinor\<close>), the HTTP schema loader (\<^verbatim>\<open>HTTPURLLoader.Load\<close>), the route
  simulation (\<^verbatim>\<open>RunRouterFunc\<close>) and the command itself (\<^verbatim>\<open>checkFunc\<close>).

  The code of other packages is not modelled. Each collaborator (the parser, the file
  system, the JSON decoder, the schema compiler, the dumper, the router, the HTTP
  client) is a parameter that gives the result of a call; a run records, in order, what
  it printed and which collaborator it called with which arguments and result. A
  collaborator is taken to return, with a value or an error; only the router's run may
  also panic, since that is the one panic \<^verbatim>\<open>check.go\<close> recovers from. A panic value is
  a non-nil Go value. \<^verbatim>\<open>RunRouterFunc\<close> is a package variable: the model is the function
  it is initialised with. \<^verbatim>\<open>os.Exit\<close> ends the run where it is called.
\<close>

section \<open>Strings and formatting as \<^verbatim>\<open>check.go\<close> uses them\<close>

text \<open>
  A Go \<^verbatim>\<open>string\<close> and a \<^verbatim>\<open>[]byte\<close> are byte sequences: both are \<^typ>\<open>string\<close> here.
  An \<^verbatim>\<open>error\<close> value is identified with the text its \<^verbatim>\<open>Error()\<close> method returns.
\<close>

type_synonym bytes = string
type_synonym error = string

definition tab :: string where
  "tab = [CHR 0x09]"

definition nl :: string where
  "nl = [CHR 0x0A]"

text \<open>
  \<^verbatim>\<open>strings.Split(s, sep)\<close> for a one-byte separator: cut at the first separator, keep the
  part before it, go on with the part after it; a string without separator is the only
  component (so the empty string has the one component \<open>''''\<close>).
\<close>

function Split :: "string \<Rightarrow> char \<Rightarrow> string list" where
  "Split s sep =
     (case dropWhile (\<lambda>c. c \<noteq> sep) s of
        [] \<Rightarrow> [s]
      | _ # rest \<Rightarrow> takeWhile (\<lambda>c. c \<noteq> sep) s # Split rest sep)"
  by pat_completeness auto
termination
proof (relation "measure (\<lambda>(s, sep). length s)")
  show "wf (measure (\<lambda>(s, sep). length s))" by simp
next
  fix s :: string and sep :: char and x :: char and rest :: string
  assume "dropWhile (\<lambda>c. c \<noteq> sep) s = x # rest"
  then have "length (x # rest) \<le> length s"
    by (metis length_dropWhile_le)
  then show "((rest, sep), (s, sep)) \<in> measure (\<lambda>(s, sep). length s)"
    by simp
qed

declare Split.simps [simp del]

text \<open>The inverse of splitting: \<^verbatim>\<open>strings.Join(comps, sep)\<close> for a one-byte separator.\<close>

fun Join :: "string list \<Rightarrow> char \<Rightarrow> string" where
  "Join [] sep = []"
| "Join [a] sep = a"
| "Join (a # b # cs) sep = a @ sep # Join (b # cs) sep"

text \<open>Decimal digits of a natural number, most significant first (the verb \<^verbatim>\<open>%d\<close>).\<close>

function digits :: "nat \<Rightarrow> string" where
  "digits n =
     (if n < 10 then [char_of (48 + n)]
      else digits (n div 10) @ [char_of (48 + n mod 10)])"
  by pat_completeness auto
termination
  by (relation "measure (\<lambda>n. n)") auto

declare digits.simps [simp del]

definition itoa :: "int \<Rightarrow> string" where
  "itoa i = (if i < 0 then CHR ''-'' # digits (nat (- i)) else digits (nat i))"

text \<open>
  \<^verbatim>\<open>fmt.Sprintf\<close> restricted to what this file formats: the verbs \<^verbatim>\<open>%s\<close> with a string
  operand and \<^verbatim>\<open>%d\<close> with an integer operand, every verb having its operand. Any other
  use (a missing operand, another verb) does not occur in \<^verbatim>\<open>check.go\<close>; there the model
  leaves the template text as it is.
\<close>

datatype operand = S string | D int

fun Sprintf :: "string \<Rightarrow> operand list \<Rightarrow> string" where
  "Sprintf (c # v # fs) (S a # as) =
     (if c = CHR ''%'' \<and> v = CHR ''s'' then a @ Sprintf fs as
      else c # Sprintf (v # fs) (S a # as))"
| "Sprintf (c # v # fs) (D n # as) =
     (if c = CHR ''%'' \<and> v = CHR ''d'' then itoa n @ Sprintf fs as
      else c # Sprintf (v # fs) (D n # as))"
| "Sprintf fs as = fs"

section \<open>The online schema location\<close>

definition onlineSchema :: string where
  "onlineSchema = ''https://www.krakend.io/schema/v%s/krakend.json''"

definition getVersionMinor :: "string \<Rightarrow> string" where
  "getVersionMinor ver =
     (let comps = Split ver (CHR ''.'') in
      if length comps < 2 then ver
      else Sprintf ''%s.%s'' [S (comps ! 0), S (comps ! 1)])"

definition onlineSchemaPath :: "string \<Rightarrow> string" where
  "onlineSchemaPath ver = Sprintf onlineSchema [S (getVersionMinor ver)]"

section \<open>The HTTP schema loader\<close>

text \<open>
  \<^verbatim>\<open>HTTPURLLoader.Load\<close>. The HTTP client and the schema-document parser
  (\<^verbatim>\<open>jsonschema.UnmarshalJSON\<close>) are collaborators, taken as parameters. What the loader does
  to them is recorded, in order, as a list of \<open>http_event\<close>s.
\<close>

record response =
  StatusCode :: int
  Body :: bytes

datatype http_event =
    ClientGet string
  | UnmarshalBody bytes
  | BodyClose

definition StatusOK :: int where
  "StatusOK = 200"

definition HTTPURLLoader_Load ::
  "(string \<Rightarrow> error + response) \<Rightarrow> (bytes \<Rightarrow> error + 'doc) \<Rightarrow> string
     \<Rightarrow> http_event list \<times> (error + 'doc)" where
  "HTTPURLLoader_Load client_Get UnmarshalJSON url =
     (case client_Get url of
        Inl err \<Rightarrow> ([ClientGet url], Inl err)
      | Inr resp \<Rightarrow>
          if StatusCode resp \<noteq> StatusOK then
            ([ClientGet url, BodyClose],
             Inl (Sprintf ''%s returned status code %d'' [S url, D (StatusCode resp)]))
          else
            ([ClientGet url, UnmarshalBody (Body resp), BodyClose],
             UnmarshalJSON (Body resp)))"

section \<open>Configuration, flags and collaborators\<close>

text \<open>
  \<^verbatim>\<open>config.ServiceConfig\<close>: the two fields this file writes are named; every other field
  of the struct is the extension part of the record (\<open>ServiceConfig.more\<close>).
\<close>

record ServiceConfig =
  Debug :: bool
  Port :: int

text \<open>The package-level variables of \<^verbatim>\<open>cmd\<close> that \<^verbatim>\<open>check.go\<close> reads.\<close>

record flags =
  cfgFile :: string
  schemaValidation :: bool
  schemaPath :: string
  schemaFetchOnline :: bool
  rawEmbedSchema :: string
  debug :: int
  port :: int
  checkGinRoutes :: bool
  checkDumpPrefix :: string
  IsTTY :: bool

text \<open>
  A panic value is any Go value; what matters to \<^verbatim>\<open>RunRouterFunc\<close> is whether its dynamic
  type is \<^verbatim>\<open>string\<close>. \<open>TypeAssertionError\<close> is the \<^verbatim>\<open>*runtime.TypeAssertionError\<close> that a
  failed \<^verbatim>\<open>r.(string)\<close> raises.
\<close>

datatype panic_value =
    StringValue string
  | ErrorValue error
  | OtherValue
  | TypeAssertionError

datatype run_result = Completes | Panics panic_value

datatype 'a go_return = Returns 'a | Panicking panic_value

text \<open>
  The collaborators: constants of other packages, the configuration parser (with its
  optional \<^verbatim>\<open>LastSourcer\<close> capability: \<open>None\<close> when the parser does not implement the
  interface), the file system, the JSON decoder, the schema compiler (once with the
  scheme-dispatching loader installed, once with the embedded document added as a
  resource), the compiled schema's validation, the dumper and the router's \<^verbatim>\<open>Run\<close>.
\<close>

record ('m, 'json, 'doc, 'sch) world =
  KrakendVersion :: string
  ColorRed :: string
  ColorGreen :: string
  ColorReset :: string
  parser_Parse :: "string \<Rightarrow> error + 'm ServiceConfig_scheme"
  parser_LastSource :: "(error + bytes) option"
  os_ReadFile :: "string \<Rightarrow> error + bytes"
  json_Unmarshal :: "bytes \<Rightarrow> error + 'json"
  compiler_Compile_loader :: "string \<Rightarrow> error + 'sch"
  jsonschema_UnmarshalJSON :: "string \<Rightarrow> error + 'doc"
  compiler_Compile_resource :: "string \<Rightarrow> 'doc \<Rightarrow> error + 'sch"
  sch_Validate :: "'sch \<Rightarrow> 'json \<Rightarrow> error option"
  dumper_Dump :: "string \<Rightarrow> int \<Rightarrow> bool \<Rightarrow> 'm ServiceConfig_scheme \<Rightarrow> error option"
  router_Run :: "'m ServiceConfig_scheme \<Rightarrow> run_result"

text \<open>
  What a run does, in order: every line printed and every call of a collaborator, with
  the arguments it got and the result it gave.
\<close>

datatype ('m, 'json, 'doc, 'sch) event =
    Print string
  | Parse string "error + 'm ServiceConfig_scheme"
  | LastSource "error + bytes"
  | ReadFile string "error + bytes"
  | JsonUnmarshal bytes "error + 'json"
  | CompileLoader string "error + 'sch"
  | UnmarshalEmbedded string "error + 'doc"
  | CompileResource string 'doc "error + 'sch"
  | Validate 'sch 'json "error option"
  | Dump "'m ServiceConfig_scheme" int "error option"
  | GinSetMode
  | ContextWithTimeout
  | RouterRun "'m ServiceConfig_scheme" run_result
  | ContextCancel

datatype outcome = Returned | Exited int | Crashed panic_value

type_synonym ('m, 'json, 'doc, 'sch) run = "('m, 'json, 'doc, 'sch) event list \<times> outcome"

section \<open>The route simulation\<close>

text \<open>
  The deferred function of \<^verbatim>\<open>RunRouterFunc\<close>: \<open>r\<close> is what \<^verbatim>\<open>recover()\<close> returns (\<open>None\<close>
  when the function is not panicking), \<open>err\<close> the named result at that moment.
\<close>

definition deferred_recover :: "panic_value option \<Rightarrow> error option \<Rightarrow> error option go_return" where
  "deferred_recover r err =
     (case r of
        None \<Rightarrow> Returns err
      | Some (StringValue s) \<Rightarrow> Returns (Some s)
      | Some _ \<Rightarrow> Panicking TypeAssertionError)"

definition simulation_config :: "flags \<Rightarrow> 'm ServiceConfig_scheme \<Rightarrow> 'm ServiceConfig_scheme" where
  "simulation_config fl cfg =
     (let cfg1 = cfg\<lparr>Debug := Debug cfg \<or> debug fl > 0\<rparr>
      in if port fl \<noteq> 0 then cfg1\<lparr>Port := port fl\<rparr> else cfg1)"

definition RunRouterFunc ::
  "flags \<Rightarrow> ('m, 'json, 'doc, 'sch) world \<Rightarrow> 'm ServiceConfig_scheme
     \<Rightarrow> ('m, 'json, 'doc, 'sch) event list \<times> error option go_return" where
  "RunRouterFunc fl w cfg0 =
     (let cfg = simulation_config fl cfg0 in
      case router_Run w cfg of
        Completes \<Rightarrow>
          ([GinSetMode, ContextWithTimeout, RouterRun cfg Completes, ContextCancel],
           deferred_recover None None)
      | Panics r \<Rightarrow>
          ([GinSetMode, ContextWithTimeout, RouterRun cfg (Panics r)],
           deferred_recover (Some r) None))"

section \<open>The check command\<close>

definition errorMsg :: "flags \<Rightarrow> ('m, 'json, 'doc, 'sch) world \<Rightarrow> string \<Rightarrow> string" where
  "errorMsg fl w content =
     (if \<not> IsTTY fl then content else ColorRed w @ content @ ColorReset w)"

text \<open>\<^verbatim>\<open>cmd.Println\<close> writes its operand and a newline.\<close>

definition Println :: "string \<Rightarrow> ('m, 'json, 'doc, 'sch) event" where
  "Println s = Print (s @ nl)"

text \<open>Events that happened before the rest of a run.\<close>

definition after ::
  "('m, 'json, 'doc, 'sch) event list \<Rightarrow> ('m, 'json, 'doc, 'sch) run \<Rightarrow> ('m, 'json, 'doc, 'sch) run" where
  "after es r = (es @ fst r, snd r)"

text \<open>
  The shape every failure of a stage takes in \<^verbatim>\<open>checkFunc\<close>: one line, the headline
  (coloured on a terminal) followed by a tab and the error's text, then \<^verbatim>\<open>os.Exit(1)\<close>.
\<close>

definition report_error ::
  "flags \<Rightarrow> ('m, 'json, 'doc, 'sch) world \<Rightarrow> string \<Rightarrow> error \<Rightarrow> ('m, 'json, 'doc, 'sch) run" where
  "report_error fl w headline err =
     ([Println (errorMsg fl w headline @ Sprintf (tab @ ''%s'' @ nl) [S err])], Exited 1)"

definition syntax_ok :: "flags \<Rightarrow> ('m, 'json, 'doc, 'sch) world \<Rightarrow> ('m, 'json, 'doc, 'sch) event" where
  "syntax_ok fl w =
     (if IsTTY fl then Print (Sprintf (''%sSyntax OK!%s'' @ nl) [S (ColorGreen w), S (ColorReset w)])
      else Println ''Syntax OK!'')"

text \<open>Lines 154 to 166: the optional route simulation, then the confirmation.\<close>

definition check_routes ::
  "flags \<Rightarrow> ('m, 'json, 'doc, 'sch) world \<Rightarrow> 'm ServiceConfig_scheme \<Rightarrow> ('m, 'json, 'doc, 'sch) run" where
  "check_routes fl w v =
     (if checkGinRoutes fl then
        (case RunRouterFunc fl w v of
           (es, Returns None) \<Rightarrow> (es @ [syntax_ok fl w], Returned)
         | (es, Returns (Some err)) \<Rightarrow>
             after es (report_error fl w ''ERROR testing the configuration file:'' err)
         | (es, Panicking r) \<Rightarrow> (es, Crashed r))
      else ([syntax_ok fl w], Returned))"

text \<open>Lines 145 to 152: the optional dump.\<close>

definition check_dump ::
  "flags \<Rightarrow> ('m, 'json, 'doc, 'sch) world \<Rightarrow> 'm ServiceConfig_scheme \<Rightarrow> ('m, 'json, 'doc, 'sch) run" where
  "check_dump fl w v =
     (if debug fl > 0 then
        (let res = dumper_Dump w (checkDumpPrefix fl) (debug fl) (IsTTY fl) v in
         after [Dump v (debug fl) res]
           (case res of
              Some err \<Rightarrow> report_error fl w ''ERROR checking the configuration file:'' err
            | None \<Rightarrow> check_routes fl w v))
      else check_routes fl w v)"

text \<open>Line 138: validation of the decoded configuration against the compiled schema.\<close>

definition check_validate ::
  "flags \<Rightarrow> ('m, 'json, 'doc, 'sch) world \<Rightarrow> 'm ServiceConfig_scheme \<Rightarrow> 'json \<Rightarrow> 'sch
     \<Rightarrow> ('m, 'json, 'doc, 'sch) run" where
  "check_validate fl w v raw sch =
     (let res = sch_Validate w sch raw in
      after [Validate sch raw res]
        (case res of
           Some err \<Rightarrow> report_error fl w ''ERROR linting the configuration file:'' err
         | None \<Rightarrow> check_dump fl w v))"

text \<open>
  Lines 85 to 136: the choice of the schema and its compilation. Line 93 overwrites the
  package variable \<^verbatim>\<open>schemaPath\<close>; \<open>schemaPath'\<close> is its value from there on.
\<close>

definition conflict_message :: string where
  "conflict_message = ''You cannot use both the --schema and --online options simultaneously. These arguments are mutually exclusive.''"

definition check_schema ::
  "flags \<Rightarrow> ('m, 'json, 'doc, 'sch) world \<Rightarrow> 'm ServiceConfig_scheme \<Rightarrow> 'json
     \<Rightarrow> ('m, 'json, 'doc, 'sch) run" where
  "check_schema fl w v raw =
     (if length (schemaPath fl) > 0 \<and> schemaFetchOnline fl then
        ([Println (errorMsg fl w conflict_message)], Exited 1)
      else
        (let schemaPath' =
               (if schemaFetchOnline fl \<or> rawEmbedSchema fl = ''''
                then Sprintf onlineSchema [S (getVersionMinor (KrakendVersion w))]
                else schemaPath fl)
         in
         if length schemaPath' > 0 then
           (let res = compiler_Compile_loader w schemaPath' in
            after [Print (Sprintf (''Using schema %s'' @ nl) [S schemaPath']),
                   CompileLoader schemaPath' res]
              (case res of
                 Inl err \<Rightarrow> report_error fl w ''ERROR compiling the custom schema:'' err
               | Inr sch \<Rightarrow> check_validate fl w v raw sch))
         else
           (let parsed = jsonschema_UnmarshalJSON w (rawEmbedSchema fl) in
            after [UnmarshalEmbedded (rawEmbedSchema fl) parsed]
              (case parsed of
                 Inl err \<Rightarrow> report_error fl w ''ERROR parsing the embed schema:'' err
               | Inr rawSchema \<Rightarrow>
                   (let res = compiler_Compile_resource w ''schema.json'' rawSchema in
                    after [CompileResource ''schema.json'' rawSchema res]
                      (case res of
                         Inl err \<Rightarrow> report_error fl w ''ERROR compiling the embed schema:'' err
                       | Inr sch \<Rightarrow> check_validate fl w v raw sch))))))"

text \<open>Lines 64 to 70: where the raw bytes of the configuration come from.\<close>

definition load_content ::
  "flags \<Rightarrow> ('m, 'json, 'doc, 'sch) world \<Rightarrow> ('m, 'json, 'doc, 'sch) event \<times> (error + bytes)" where
  "load_content fl w =
     (case parser_LastSource w of
        Some res \<Rightarrow> (LastSource res, res)
      | None \<Rightarrow> (ReadFile (cfgFile fl) (os_ReadFile w (cfgFile fl)), os_ReadFile w (cfgFile fl)))"

text \<open>Lines 61 to 143: the optional linting.\<close>

definition check_lint ::
  "flags \<Rightarrow> ('m, 'json, 'doc, 'sch) world \<Rightarrow> 'm ServiceConfig_scheme \<Rightarrow> ('m, 'json, 'doc, 'sch) run" where
  "check_lint fl w v =
     (if schemaValidation fl then
        after [Print (''Linting configuration file...'' @ nl), fst (load_content fl w)]
          (case snd (load_content fl w) of
             Inl err \<Rightarrow> report_error fl w ''ERROR loading the configuration content:'' err
           | Inr data \<Rightarrow>
               (let res = json_Unmarshal w data in
                after [JsonUnmarshal data res]
                  (case res of
                     Inl err \<Rightarrow>
                       report_error fl w ''ERROR converting configuration content to JSON:'' err
                   | Inr raw \<Rightarrow> check_schema fl w v raw)))
      else check_dump fl w v)"

definition missing_config_message :: string where
  "missing_config_message = ''Please, provide the path to the configuration file with --config or see all the options with --help''"

definition checkFunc :: "flags \<Rightarrow> ('m, 'json, 'doc, 'sch) world \<Rightarrow> ('m, 'json, 'doc, 'sch) run" where
  "checkFunc fl w =
     (if cfgFile fl = '''' then
        ([Println (errorMsg fl w missing_config_message)], Exited 1)
      else
        (let res = parser_Parse w (cfgFile fl) in
         after [Print (Sprintf (''Parsing configuration file: %s'' @ nl) [S (cfgFile fl)]),
                Parse (cfgFile fl) res]
           (case res of
              Inl err \<Rightarrow> report_error fl w ''ERROR parsing the configuration file:'' err
            | Inr v \<Rightarrow> check_lint fl w v)))"

section \<open>Reading a run\<close>

text \<open>
  The position in the pipeline of each call of a collaborator: parsing, obtaining the raw
  bytes, decoding them as JSON, loading the schema, compiling it, validating, dumping,
  simulating the routes. Printing and the bookkeeping around the router have none.
\<close>

fun rank :: "('m, 'json, 'doc, 'sch) event \<Rightarrow> nat option" where
  "rank (Parse _ _) = Some 1"
| "rank (LastSource _) = Some 2"
| "rank (ReadFile _ _) = Some 2"
| "rank (JsonUnmarshal _ _) = Some 3"
| "rank (CompileLoader _ _) = Some 4"
| "rank (UnmarshalEmbedded _ _) = Some 4"
| "rank (CompileResource _ _ _) = Some 5"
| "rank (Validate _ _ _) = Some 6"
| "rank (Dump _ _ _) = Some 7"
| "rank (RouterRun _ _) = Some 8"
| "rank _ = None"

definition calls :: "('m, 'json, 'doc, 'sch) event list \<Rightarrow> ('m, 'json, 'doc, 'sch) event list" where
  "calls es = filter (\<lambda>e. rank e \<noteq> None) es"

text \<open>A call that did not succeed: it returned an error, or (the router) it panicked.\<close>

fun failed :: "('m, 'json, 'doc, 'sch) event \<Rightarrow> bool" where
  "failed (Parse _ (Inl _)) = True"
| "failed (LastSource (Inl _)) = True"
| "failed (ReadFile _ (Inl _)) = True"
| "failed (JsonUnmarshal _ (Inl _)) = True"
| "failed (CompileLoader _ (Inl _)) = True"
| "failed (UnmarshalEmbedded _ (Inl _)) = True"
| "failed (CompileResource _ _ (Inl _)) = True"
| "failed (Validate _ _ (Some _)) = True"
| "failed (Dump _ _ (Some _)) = True"
| "failed (RouterRun _ (Panics _)) = True"
| "failed _ = False"

text \<open>Obtaining or compiling a schema, from any source.\<close>

fun schema_loading :: "('m, 'json, 'doc, 'sch) event \<Rightarrow> bool" where
  "schema_loading (CompileLoader _ _) = True"
| "schema_loading (UnmarshalEmbedded _ _) = True"
| "schema_loading (CompileResource _ _ _) = True"
| "schema_loading _ = False"

text \<open>
  The calls made by \<^verbatim>\<open>checkFunc\<close> that reach the network or the storage: reading a file, and
  compiling through the loader for the \<^verbatim>\<open>file\<close>, \<^verbatim>\<open>http\<close> and \<^verbatim>\<open>https\<close> schemes.
\<close>

fun outside_access :: "('m, 'json, 'doc, 'sch) event \<Rightarrow> bool" where
  "outside_access (ReadFile _ _) = True"
| "outside_access (CompileLoader _ _) = True"
| "outside_access _ = False"

text \<open>
  The exit status of the process: \<^verbatim>\<open>checkFunc\<close> returning lets the command end with status
  0, \<^verbatim>\<open>os.Exit(n)\<close> ends it with \<open>n\<close>, and the Go runtime ends a process whose panic nobody
  recovered with status 2.
\<close>

fun exit_status :: "outcome \<Rightarrow> int" where
  "exit_status Returned = 0"
| "exit_status (Exited n) = n"
| "exit_status (Crashed _) = 2"

text \<open>
  A run in good order, from position \<open>k\<close> on: the calls come in strictly increasing
  position, none before \<open>k\<close>; no call follows a failed one; and the run either returns
  after calls that all succeeded, the confirmation being the last thing it did, or it
  ends the process, by \<^verbatim>\<open>os.Exit(1)\<close> or by the panic of the failed type assertion.
\<close>

definition orderly ::
  "('m, 'json, 'doc, 'sch) event \<Rightarrow> nat \<Rightarrow> ('m, 'json, 'doc, 'sch) run \<Rightarrow> bool" where
  "orderly confirmation k r =
     (sorted_wrt (<) (List.map_filter rank (fst r)) \<and>
      list_all (\<lambda>n. k \<le> n) (List.map_filter rank (fst r)) \<and>
      list_all (\<lambda>e. \<not> failed e) (butlast (calls (fst r))) \<and>
      (snd r = Returned \<and> list_all (\<lambda>e. \<not> failed e) (fst r) \<and> fst r \<noteq> [] \<and>
         last (fst r) = confirmation
       \<or> snd r = Exited 1 \<or> snd r = Crashed TypeAssertionError))"

section \<open>The pipeline as the specification words it\<close>

text \<open>
  The schema source of the specification (section 3 and 4.1): a custom location, the
  online default, or the embedded default, chosen from the custom location (possibly
  empty), the request for the online schema, the embedded text (empty when there is
  none) and the version.
\<close>

datatype SchemaSource =
    CustomLocation string
  | OnlineDefault string
  | EmbeddedDefault string

datatype resolve_error = ConflictingOptions

definition resolveSchemaSource ::
  "string \<Rightarrow> bool \<Rightarrow> string \<Rightarrow> string \<Rightarrow> resolve_error + SchemaSource" where
  "resolveSchemaSource customSchemaLocation forceOnline embedded ver =
     (if customSchemaLocation \<noteq> '''' \<and> forceOnline then Inl ConflictingOptions
      else if forceOnline \<or> embedded = '''' then Inr (OnlineDefault (onlineSchemaPath ver))
      else if customSchemaLocation \<noteq> '''' then Inr (CustomLocation customSchemaLocation)
      else Inr (EmbeddedDefault embedded))"

text \<open>Loading and compiling the schema of a source (sections 4.2 and 4.3).\<close>

definition load_and_compile ::
  "('m, 'json, 'doc, 'sch) world \<Rightarrow> SchemaSource \<Rightarrow> error + 'sch" where
  "load_and_compile w src =
     (case src of
        CustomLocation p \<Rightarrow> compiler_Compile_loader w p
      | OnlineDefault u \<Rightarrow> compiler_Compile_loader w u
      | EmbeddedDefault txt \<Rightarrow>
          (case jsonschema_UnmarshalJSON w txt of
             Inl err \<Rightarrow> Inl err
           | Inr d \<Rightarrow> compiler_Compile_resource w ''schema.json'' d))"

text \<open>
  Every stage of the linting succeeds (section 4.5): the raw bytes are obtained, they
  decode as JSON, a schema source is resolved, its schema loads and compiles, and the
  decoded configuration conforms to it.
\<close>

definition lint_succeeds :: "flags \<Rightarrow> ('m, 'json, 'doc, 'sch) world \<Rightarrow> bool" where
  "lint_succeeds fl w =
     (case (case parser_LastSource w of Some res \<Rightarrow> res | None \<Rightarrow> os_ReadFile w (cfgFile fl)) of
        Inl _ \<Rightarrow> False
      | Inr data \<Rightarrow>
          (case json_Unmarshal w data of
             Inl _ \<Rightarrow> False
           | Inr raw \<Rightarrow>
               (case resolveSchemaSource (schemaPath fl) (schemaFetchOnline fl)
                       (rawEmbedSchema fl) (KrakendVersion w) of
                  Inl _ \<Rightarrow> False
                | Inr src \<Rightarrow>
                    (case load_and_compile w src of
                       Inl _ \<Rightarrow> False
                     | Inr sch \<Rightarrow> sch_Validate w sch raw = None))))"

text \<open>
  Every requested stage succeeds: a configuration path is given, it parses, and each of
  linting, dump and route simulation succeeds when it is requested.
\<close>

definition all_requested_stages_succeed :: "flags \<Rightarrow> ('m, 'json, 'doc, 'sch) world \<Rightarrow> bool" where
  "all_requested_stages_succeed fl w =
     (cfgFile fl \<noteq> '''' \<and>
      (case parser_Parse w (cfgFile fl) of
         Inl _ \<Rightarrow> False
       | Inr v \<Rightarrow>
           (\<not> schemaValidation fl \<or> lint_succeeds fl w) \<and>
           (\<not> debug fl > 0 \<or> dumper_Dump w (checkDumpPrefix fl) (debug fl) (IsTTY fl) v = None) \<and>
           (\<not> checkGinRoutes fl \<or>
              router_Run w (v\<lparr>Debug := Debug v \<or> debug fl > 0,
                               Port := (if port fl \<noteq> 0 then port fl else Port v)\<rparr>) = Completes)))"

text \<open>
  The positions of the calls of a run that does everything requested: parsing, then for
  linting the raw bytes, their decoding, the schema (one call of the compiler through
  the loader for a located schema; parsing and then compiling for the embedded one) and
  the validation, then the dump, then the route simulation.
\<close>

definition requested_positions :: "flags \<Rightarrow> nat list" where
  "requested_positions fl =
     1 # (if schemaValidation fl
          then [2, 3, 4] @
               (if schemaFetchOnline fl \<or> rawEmbedSchema fl = '''' \<or> schemaPath fl \<noteq> ''''
                then [] else [5]) @ [6]
          else []) @
     (if debug fl > 0 then [7] else []) @
     (if checkGinRoutes fl then [8] else [])"

section \<open>Example inputs\<close>

definition example_config :: ServiceConfig where
  "example_config = \<lparr>Debug = False, Port = 80\<rparr>"

definition example_flags :: flags where
  "example_flags =
     \<lparr>cfgFile = ''krakend.json'', schemaValidation = True, schemaPath = '''',
      schemaFetchOnline = False, rawEmbedSchema = ''{}'', debug = 1, port = 8080,
      checkGinRoutes = True, checkDumpPrefix = ''| '', IsTTY = False\<rparr>"

text \<open>
  A world where everything succeeds: documents and schemas are their own text, the
  parser remembers its source, and a schema accepts every configuration.
\<close>

definition example_world :: "(unit, string, string, string) world" where
  "example_world =
     \<lparr>KrakendVersion = ''2.7.1'', ColorRed = ''<red>'', ColorGreen = ''<green>'',
      ColorReset = ''<reset>'',
      parser_Parse = (\<lambda>p. Inr example_config),
      parser_LastSource = Some (Inr ''{}''),
      os_ReadFile = (\<lambda>p. Inr ''{ }''),
      json_Unmarshal = (\<lambda>b. Inr b),
      compiler_Compile_loader = (\<lambda>p. Inr p),
      jsonschema_UnmarshalJSON = (\<lambda>b. Inr b),
      compiler_Compile_resource = (\<lambda>n d. Inr d),
      sch_Validate = (\<lambda>s j. None),
      dumper_Dump = (\<lambda>p l t c. None),
      router_Run = (\<lambda>c. Completes)\<rparr>"

text \<open>The router panics with a string, as gin does on conflicting routes.\<close>

definition world_string_panic :: "(unit, string, string, string) world" where
  "world_string_panic =
     example_world\<lparr>router_Run := (\<lambda>c. Panics (StringValue ''wildcard route conflicts''))\<rparr>"

text \<open>The router panics with an error value, as \<^verbatim>\<open>panic(err)\<close> or a nil dereference does.\<close>

definition world_error_panic :: "(unit, string, string, string) world" where
  "world_error_panic =
     example_world\<lparr>router_Run := (\<lambda>c. Panics (ErrorValue ''invalid memory address or nil pointer dereference''))\<rparr>"

text \<open>A parser without the \<^verbatim>\<open>LastSourcer\<close> capability.\<close>

definition world_plain_parser :: "(unit, string, string, string) world" where
  "world_plain_parser = example_world\<lparr>parser_LastSource := None\<rparr>"

text \<open>The schema does not compile.\<close>

definition world_bad_schema :: "(unit, string, string, string) world" where
  "world_bad_schema =
     example_world\<lparr>compiler_Compile_resource := (\<lambda>n d. Inl ''invalid schema'')\<rparr>"

definition conflicting_flags :: flags where
  "conflicting_flags = example_flags\<lparr>schemaPath := ''schema.json'', schemaFetchOnline := True\<rparr>"

definition custom_flags :: flags where
  "custom_flags = example_flags\<lparr>schemaPath := ''file:///etc/schema.json''\<rparr>"

definition online_flags :: flags where
  "online_flags = example_flags\<lparr>schemaFetchOnline := True\<rparr>"

definition response_ok :: response where
  "response_ok = \<lparr>StatusCode = 200, Body = ''{}''\<rparr>"

definition response_not_found :: response where
  "response_not_found = \<lparr>StatusCode = 404, Body = ''not found''\<rparr>"

section \<open>The version in the online location\<close>

lemma dropWhile_no_sep: "sep \<notin> set s \<Longrightarrow> dropWhile (\<lambda>c. c \<noteq> sep) s = []"
  by (induction s) auto

lemma takeWhile_no_sep: "sep \<notin> set s \<Longrightarrow> takeWhile (\<lambda>c. c \<noteq> sep) s = s"
  by (induction s) auto

lemma dropWhile_at_sep:
  "sep \<notin> set a \<Longrightarrow> dropWhile (\<lambda>c. c \<noteq> sep) (a @ sep # rest) = sep # rest"
  by (induction a) auto

lemma takeWhile_at_sep:
  "sep \<notin> set a \<Longrightarrow> takeWhile (\<lambda>c. c \<noteq> sep) (a @ sep # rest) = a"
  by (induction a) auto

lemma Split_no_sep: "sep \<notin> set s \<Longrightarrow> Split s sep = [s]"
  by (subst Split.simps) (simp add: dropWhile_no_sep)

lemma Split_at_sep: "sep \<notin> set a \<Longrightarrow> Split (a @ sep # rest) sep = a # Split rest sep"
  by (subst Split.simps) (simp add: dropWhile_at_sep takeWhile_at_sep)

lemma Split_not_Nil: "Split s sep \<noteq> []"
  by (subst Split.simps) (simp split: list.splits)

lemma Split_Join:
  "cs \<noteq> [] \<Longrightarrow> \<forall>c \<in> set cs. sep \<notin> set c \<Longrightarrow> Split (Join cs sep) sep = cs"
proof (induction cs sep rule: Join.induct)
  case (1 sep)
  then show ?case by simp
next
  case (2 a sep)
  then show ?case by (simp add: Split_no_sep)
next
  case (3 a b cs sep)
  then show ?case by (simp add: Split_at_sep)
qed

lemma Join_Cons: "cs \<noteq> [] \<Longrightarrow> Join (a # cs) sep = a @ sep # Join cs sep"
  by (cases cs) simp_all

lemma Split_last:
  assumes "dropWhile (\<lambda>c. c \<noteq> sep) s = []"
  shows "Split s sep = [s]"
  by (subst Split.simps) (simp only: assms list.case)

lemma Split_next:
  "dropWhile (\<lambda>c. c \<noteq> sep) s = x # rest \<Longrightarrow>
     Split s sep = takeWhile (\<lambda>c. c \<noteq> sep) s # Split rest sep"
  by (subst Split.simps) simp

lemma dropWhile_starts_with_sep:
  "dropWhile (\<lambda>c. c \<noteq> sep) s = x # rest \<Longrightarrow> x = sep"
  using hd_dropWhile [of "\<lambda>c. c \<noteq> sep" s] by simp

lemma Join_Split: "Join (Split s sep) sep = s"
proof (induction s sep rule: Split.induct)
  case (1 s sep)
  show ?case
  proof (cases "dropWhile (\<lambda>c. c \<noteq> sep) s")
    case Nil
    have "Split s sep = [s]" using Nil by (rule Split_last)
    then show ?thesis by simp
  next
    case (Cons x rest)
    have x: "x = sep" using Cons by (rule dropWhile_starts_with_sep)
    have "takeWhile (\<lambda>c. c \<noteq> sep) s @ dropWhile (\<lambda>c. c \<noteq> sep) s = s"
      by (rule takeWhile_dropWhile_id)
    then have s: "takeWhile (\<lambda>c. c \<noteq> sep) s @ sep # rest = s"
      by (simp only: Cons x)
    have "Join (Split s sep) sep = Join (takeWhile (\<lambda>c. c \<noteq> sep) s # Split rest sep) sep"
      by (simp only: Split_next [OF Cons])
    also have "\<dots> = takeWhile (\<lambda>c. c \<noteq> sep) s @ sep # Join (Split rest sep) sep"
      by (rule Join_Cons) (rule Split_not_Nil)
    also have "\<dots> = takeWhile (\<lambda>c. c \<noteq> sep) s @ sep # rest"
      by (simp only: "1.IH" [OF Cons])
    finally show ?thesis by (simp only: s)
  qed
qed

lemma Split_sep_free: "c \<in> set (Split s sep) \<Longrightarrow> sep \<notin> set c"
proof (induction s sep arbitrary: c rule: Split.induct)
  case (1 s sep)
  show ?case
  proof (cases "dropWhile (\<lambda>c. c \<noteq> sep) s")
    case Nil
    have "Split s sep = [s]" using Nil by (rule Split_last)
    moreover from Nil have "sep \<notin> set s"
      by (auto simp: dropWhile_eq_Nil_conv)
    ultimately show ?thesis using "1.prems" by simp
  next
    case (Cons x rest)
    have "Split s sep = takeWhile (\<lambda>c. c \<noteq> sep) s # Split rest sep"
      using Cons by (rule Split_next)
    with "1.prems" consider "c = takeWhile (\<lambda>c. c \<noteq> sep) s" | "c \<in> set (Split rest sep)"
      by auto
    then show ?thesis
    proof cases
      case 1
      then show ?thesis by (auto dest: set_takeWhileD)
    next
      case 2
      then show ?thesis using "1.IH" [OF Cons] by simp
    qed
  qed
qed

lemma Sprintf_two: "Sprintf ''%s.%s'' [S a, S b] = a @ ''.'' @ b"
  by simp

lemma Sprintf_onlineSchema:
  "Sprintf onlineSchema [S a] = ''https://www.krakend.io/schema/v'' @ a @ ''/krakend.json''"
  by (simp add: onlineSchema_def)

text \<open>
  Claim C5. For every version string, \<open>Split\<close> on the dot gives its dot-separated
  components: a non-empty list of dot-free strings whose join is the string, and the only
  such list. With fewer than two of them \<open>getVersionMinor\<close> returns the string
  unchanged; otherwise it returns the first two joined by a dot. The online location is
  the fixed template with that text in place of the verb.
\<close>

theorem getVersionMinor_first_two_components:
  "Split ver (CHR ''.'') = comps \<Longrightarrow>
     comps \<noteq> [] \<and> Join comps (CHR ''.'') = ver \<and> (\<forall>c \<in> set comps. CHR ''.'' \<notin> set c) \<and>
     (\<forall>cs. cs \<noteq> [] \<and> (\<forall>c \<in> set cs. CHR ''.'' \<notin> set c) \<and> Join cs (CHR ''.'') = ver \<longrightarrow> cs = comps) \<and>
     getVersionMinor ver = (if length comps < 2 then ver else comps ! 0 @ ''.'' @ comps ! 1) \<and>
     onlineSchemaPath ver = ''https://www.krakend.io/schema/v'' @ getVersionMinor ver @ ''/krakend.json''"
proof -
  assume comps: "Split ver (CHR ''.'') = comps"
  have 1: "comps \<noteq> []"
    unfolding comps [symmetric] by (rule Split_not_Nil)
  have 2: "Join comps (CHR ''.'') = ver"
    unfolding comps [symmetric] by (rule Join_Split)
  have 3: "\<forall>c \<in> set comps. CHR ''.'' \<notin> set c"
    unfolding comps [symmetric] by (intro ballI) (rule Split_sep_free)
  have 4: "\<forall>cs. cs \<noteq> [] \<and> (\<forall>c \<in> set cs. CHR ''.'' \<notin> set c) \<and> Join cs (CHR ''.'') = ver \<longrightarrow> cs = comps"
  proof (intro allI impI)
    fix cs :: "string list"
    assume h: "cs \<noteq> [] \<and> (\<forall>c \<in> set cs. CHR ''.'' \<notin> set c) \<and> Join cs (CHR ''.'') = ver"
    then have "Split (Join cs (CHR ''.'')) (CHR ''.'') = cs"
      by (intro Split_Join) blast+
    with h comps show "cs = comps" by simp
  qed
  have 5: "getVersionMinor ver = (if length comps < 2 then ver else comps ! 0 @ ''.'' @ comps ! 1)"
    unfolding getVersionMinor_def comps Let_def Sprintf_two by simp
  have 6: "onlineSchemaPath ver = ''https://www.krakend.io/schema/v'' @ getVersionMinor ver @ ''/krakend.json''"
    unfolding onlineSchemaPath_def by (rule Sprintf_onlineSchema)
  from 1 2 3 4 5 6 show ?thesis by blast
qed

lemma Split_example: "Split ''2.7.1-rc'' (CHR ''.'') = [''2'', ''7'', ''1-rc'']"
  by code_simp

theorem getVersionMinor_first_two_components_witness:
  "Split ''2.7.1-rc'' (CHR ''.'') = [''2'', ''7'', ''1-rc''] \<and>
   getVersionMinor ''2.7.1-rc'' = ''2.7'' \<and>
   onlineSchemaPath ''2.7.1-rc'' = ''https://www.krakend.io/schema/v2.7/krakend.json''"
proof -
  note t = getVersionMinor_first_two_components [OF Split_example]
  from t have a: "getVersionMinor ''2.7.1-rc'' = ''2.7''" by simp
  from t have b: "onlineSchemaPath ''2.7.1-rc'' = ''https://www.krakend.io/schema/v'' @ getVersionMinor ''2.7.1-rc'' @ ''/krakend.json''"
    by blast
  show ?thesis using Split_example a b by simp
qed

section \<open>Properties of the HTTP schema loader\<close>

lemma Sprintf_status:
  "Sprintf ''%s returned status code %d'' [S url, D code] = url @ '' returned status code '' @ itoa code"
  by simp

text \<open>
  Claim C6. When the client returns a response, the loader closes its body exactly once,
  as the last thing it does, whatever the status and whatever the parser says. With a
  status other than 200 the loader fails with the URL and the status code in the text
  of the error and the body is never parsed; with status 200 the result is the parser's,
  a document or a parse error.
\<close>

theorem HTTPURLLoader_Load_status_and_close:
  "client_Get url = Inr resp \<Longrightarrow>
     last (fst (HTTPURLLoader_Load client_Get UnmarshalJSON url)) = BodyClose \<and>
     count_list (fst (HTTPURLLoader_Load client_Get UnmarshalJSON url)) BodyClose = 1 \<and>
     (StatusCode resp \<noteq> 200 \<longrightarrow>
        snd (HTTPURLLoader_Load client_Get UnmarshalJSON url) =
          Inl (url @ '' returned status code '' @ itoa (StatusCode resp)) \<and>
        (\<forall>b. UnmarshalBody b \<notin> set (fst (HTTPURLLoader_Load client_Get UnmarshalJSON url)))) \<and>
     (StatusCode resp = 200 \<longrightarrow>
        snd (HTTPURLLoader_Load client_Get UnmarshalJSON url) = UnmarshalJSON (Body resp) \<and>
        fst (HTTPURLLoader_Load client_Get UnmarshalJSON url) =
          [ClientGet url, UnmarshalBody (Body resp), BodyClose])"
  unfolding HTTPURLLoader_Load_def StatusOK_def Sprintf_status by simp

lemma itoa_404: "itoa 404 = ''404''"
  by code_simp

theorem HTTPURLLoader_Load_status_and_close_witness:
  "HTTPURLLoader_Load (\<lambda>u. Inr response_not_found) (\<lambda>b. Inr b) ''https://example.org/s.json'' =
     ([ClientGet ''https://example.org/s.json'', BodyClose],
      Inl ''https://example.org/s.json returned status code 404'') \<and>
   snd (HTTPURLLoader_Load (\<lambda>u. Inr response_ok)
          (\<lambda>b. Inl ''unexpected end of JSON input'' :: error + string)
          ''https://example.org/s.json'') = Inl ''unexpected end of JSON input'' \<and>
   last (fst (HTTPURLLoader_Load (\<lambda>u. Inr response_ok)
          (\<lambda>b. Inl ''unexpected end of JSON input'' :: error + string)
          ''https://example.org/s.json'')) = BodyClose"
proof -
  have a: "(\<lambda>u::string. Inr response_not_found :: error + response) ''https://example.org/s.json'' = Inr response_not_found"
    by simp
  have b: "(\<lambda>u::string. Inr response_ok :: error + response) ''https://example.org/s.json'' = Inr response_ok"
    by simp
  note ta = HTTPURLLoader_Load_status_and_close
    [of "\<lambda>u. Inr response_not_found" "''https://example.org/s.json''" response_not_found
        "\<lambda>b. Inr b :: error + string", OF a]
  note tb = HTTPURLLoader_Load_status_and_close
    [of "\<lambda>u. Inr response_ok" "''https://example.org/s.json''" response_ok
        "\<lambda>b. Inl ''unexpected end of JSON input'' :: error + string", OF b]
  have 1: "snd (HTTPURLLoader_Load (\<lambda>u. Inr response_not_found) (\<lambda>b. Inr b :: error + string) ''https://example.org/s.json'')
      = Inl ''https://example.org/s.json returned status code 404''"
    using ta by (simp add: response_not_found_def itoa_404)
  have 2: "fst (HTTPURLLoader_Load (\<lambda>u. Inr response_not_found) (\<lambda>b. Inr b :: error + string) ''https://example.org/s.json'')
      = [ClientGet ''https://example.org/s.json'', BodyClose]"
    by (simp add: HTTPURLLoader_Load_def response_not_found_def StatusOK_def)
  from tb have 3: "snd (HTTPURLLoader_Load (\<lambda>u. Inr response_ok) (\<lambda>b. Inl ''unexpected end of JSON input'' :: error + string)
          ''https://example.org/s.json'') = Inl ''unexpected end of JSON input''"
    by (simp add: response_ok_def)
  from tb have 4: "last (fst (HTTPURLLoader_Load (\<lambda>u. Inr response_ok) (\<lambda>b. Inl ''unexpected end of JSON input'' :: error + string)
          ''https://example.org/s.json'')) = BodyClose"
    by blast
  from 1 2 3 4 show ?thesis by (simp add: prod_eq_iff)
qed

section \<open>Properties of the route simulation\<close>

lemma RunRouterFunc_Completes:
  "router_Run w (simulation_config fl cfg) = Completes \<Longrightarrow>
     RunRouterFunc fl w cfg =
       ([GinSetMode, ContextWithTimeout, RouterRun (simulation_config fl cfg) Completes, ContextCancel],
        Returns None)"
  by (simp add: RunRouterFunc_def deferred_recover_def)

lemma RunRouterFunc_Panics_string:
  "router_Run w (simulation_config fl cfg) = Panics (StringValue s) \<Longrightarrow>
     RunRouterFunc fl w cfg =
       ([GinSetMode, ContextWithTimeout, RouterRun (simulation_config fl cfg) (Panics (StringValue s))],
        Returns (Some s))"
  by (simp add: RunRouterFunc_def deferred_recover_def)

lemma RunRouterFunc_Panics_other:
  "router_Run w (simulation_config fl cfg) = Panics r \<Longrightarrow> \<forall>s. r \<noteq> StringValue s \<Longrightarrow>
     RunRouterFunc fl w cfg =
       ([GinSetMode, ContextWithTimeout, RouterRun (simulation_config fl cfg) (Panics r)],
        Panicking TypeAssertionError)"
  by (cases r) (simp_all add: RunRouterFunc_def deferred_recover_def)

text \<open>
  Claim C10. \<open>RunRouterFunc\<close> returns no error exactly when the router's run completes
  without panicking, and it returns an error only by recovering a panic, whose string
  value is the error's text: the run itself hands no error back.
\<close>

theorem RunRouterFunc_error_only_from_panic:
  "(router_Run w (simulation_config fl cfg) = Completes \<longrightarrow>
      snd (RunRouterFunc fl w cfg) = Returns None) \<and>
   (snd (RunRouterFunc fl w cfg) = Returns None \<longrightarrow>
      router_Run w (simulation_config fl cfg) = Completes) \<and>
   (snd (RunRouterFunc fl w cfg) = Returns (Some err) \<longrightarrow>
      router_Run w (simulation_config fl cfg) = Panics (StringValue err))"
proof (cases "router_Run w (simulation_config fl cfg)")
  case Completes
  then show ?thesis by (simp add: RunRouterFunc_Completes)
next
  case (Panics r)
  show ?thesis
  proof (cases "\<exists>s. r = StringValue s")
    case True
    then obtain s where "r = StringValue s" by blast
    with Panics show ?thesis by (simp add: RunRouterFunc_Panics_string)
  next
    case False
    with Panics show ?thesis by (simp add: RunRouterFunc_Panics_other)
  qed
qed

lemma example_simulation_config:
  "simulation_config example_flags example_config = \<lparr>Debug = True, Port = 8080\<rparr>"
  by (simp add: simulation_config_def example_flags_def example_config_def)

theorem RunRouterFunc_error_only_from_panic_witness:
  "router_Run example_world (simulation_config example_flags example_config) = Completes \<and>
   snd (RunRouterFunc example_flags example_world example_config) = Returns None \<and>
   snd (RunRouterFunc example_flags world_string_panic example_config)
     = Returns (Some ''wildcard route conflicts'') \<and>
   router_Run world_string_panic (simulation_config example_flags example_config)
     = Panics (StringValue ''wildcard route conflicts'')"
proof -
  have a: "router_Run example_world (simulation_config example_flags example_config) = Completes"
    by (simp add: example_world_def)
  have b: "snd (RunRouterFunc example_flags world_string_panic example_config)
     = Returns (Some ''wildcard route conflicts'')"
    by (simp add: RunRouterFunc_def deferred_recover_def world_string_panic_def example_world_def)
  from a RunRouterFunc_error_only_from_panic [of example_world example_flags example_config]
  have c: "snd (RunRouterFunc example_flags example_world example_config) = Returns None"
    by blast
  from b RunRouterFunc_error_only_from_panic
    [of world_string_panic example_flags example_config "''wildcard route conflicts''"]
  have d: "router_Run world_string_panic (simulation_config example_flags example_config)
     = Panics (StringValue ''wildcard route conflicts'')"
    by blast
  from a b c d show ?thesis by blast
qed

text \<open>
  Claim C1, at a router that panics with an error value: the deferred function's
  \<^verbatim>\<open>r.(string)\<close> panics in turn, \<open>RunRouterFunc\<close> does not return, and the command ends
  by that panic instead of reporting an error.
\<close>

theorem RunRouterFunc_error_panic_escapes:
  "snd (RunRouterFunc example_flags world_error_panic example_config) = Panicking TypeAssertionError \<and>
   snd (checkFunc example_flags world_error_panic) = Crashed TypeAssertionError"
  by (simp add: checkFunc_def check_lint_def check_schema_def check_validate_def check_dump_def
      check_routes_def RunRouterFunc_def deferred_recover_def after_def load_content_def
      world_error_panic_def example_world_def example_flags_def Let_def)

text \<open>
  Claim C2, at a router that panics with a string: \<open>RunRouterFunc\<close> returns the error,
  and the context it created has not been cancelled.
\<close>

theorem RunRouterFunc_panic_skips_cancel:
  "RunRouterFunc example_flags world_string_panic example_config =
     ([GinSetMode, ContextWithTimeout,
       RouterRun \<lparr>Debug = True, Port = 8080\<rparr> (Panics (StringValue ''wildcard route conflicts''))],
      Returns (Some ''wildcard route conflicts''))"
  by (simp add: RunRouterFunc_def deferred_recover_def world_string_panic_def example_world_def
      example_simulation_config)

section \<open>Properties of the check command\<close>

lemma fst_after [simp]: "fst (after es r) = es @ fst r"
  by (simp add: after_def)

lemma snd_after [simp]: "snd (after es r) = snd r"
  by (simp add: after_def)

lemma after_two: "after [a, b] r = after [a] (after [b] r)"
  by (simp add: after_def)

lemma fst_report_error [simp]:
  "fst (report_error fl w headline err) =
     [Println (errorMsg fl w headline @ Sprintf (tab @ ''%s'' @ nl) [S err])]"
  by (simp add: report_error_def)

lemma snd_report_error [simp]: "snd (report_error fl w headline err) = Exited 1"
  by (simp add: report_error_def)

lemma rank_Println [simp]: "rank (Println s) = None"
  by (simp add: Println_def)

lemma failed_Println [simp]: "\<not> failed (Println s)"
  by (simp add: Println_def)

lemma rank_syntax_ok [simp]: "rank (syntax_ok fl w) = None"
  by (simp add: syntax_ok_def)

lemma failed_syntax_ok [simp]: "\<not> failed (syntax_ok fl w)"
  by (simp add: syntax_ok_def Println_def)

lemma failed_has_rank: "failed e \<Longrightarrow> rank e \<noteq> None"
  by (cases e) simp_all

lemma map_filter_rank_Cons:
  "List.map_filter rank (e # es) =
     (case rank e of None \<Rightarrow> List.map_filter rank es | Some n \<Rightarrow> n # List.map_filter rank es)"
  by (simp add: List.map_filter_simps)

lemma calls_Cons: "calls (e # es) = (if rank e = None then calls es else e # calls es)"
  by (simp add: calls_def)

lemma calls_Nil [simp]: "calls [] = []"
  by (simp add: calls_def)

lemma orderly_exit: "rank e = None \<Longrightarrow> orderly c k ([e], Exited 1)"
  by (simp add: orderly_def map_filter_rank_Cons List.map_filter_simps calls_Cons)

lemma orderly_report:
  "rank e = Some n \<Longrightarrow> k \<le> n \<Longrightarrow> orderly c k (after [e] (report_error fl w headline err))"
  by (simp add: orderly_def map_filter_rank_Cons List.map_filter_simps calls_Cons)

lemma orderly_quiet: "rank e = None \<Longrightarrow> orderly c k r \<Longrightarrow> orderly c k (after [e] r)"
  using failed_has_rank [of e]
  by (auto simp add: orderly_def map_filter_rank_Cons calls_Cons)

lemma orderly_call:
  assumes e: "rank e = Some n" "\<not> failed e" and k: "k \<le> n" "n < k'" and r: "orderly c k' r"
  shows "orderly c k (after [e] r)"
proof -
  have ranks: "List.map_filter rank (e # fst r) = n # List.map_filter rank (fst r)"
    using e by (simp add: map_filter_rank_Cons)
  have cs: "calls (e # fst r) = e # calls (fst r)"
    using e by (simp add: calls_Cons)
  from r have bound: "\<forall>m \<in> set (List.map_filter rank (fst r)). k' \<le> m"
    by (simp add: orderly_def list_all_iff)
  from r have sorted: "sorted_wrt (<) (List.map_filter rank (fst r))"
    by (simp add: orderly_def)
  have 1: "sorted_wrt (<) (List.map_filter rank (e # fst r))"
    unfolding ranks using sorted bound k by auto
  have 2: "list_all (\<lambda>m. k \<le> m) (List.map_filter rank (e # fst r))"
    unfolding ranks using bound k by (auto simp add: list_all_iff)
  have 3: "list_all (\<lambda>e. \<not> failed e) (butlast (calls (e # fst r)))"
    unfolding cs using r e by (simp add: orderly_def)
  have 4: "snd r = Returned \<and> list_all (\<lambda>e. \<not> failed e) (e # fst r) \<and>
             e # fst r \<noteq> [] \<and> last (e # fst r) = c
           \<or> snd r = Exited 1 \<or> snd r = Crashed TypeAssertionError"
    using r e by (auto simp add: orderly_def)
  from 1 2 3 4 show ?thesis unfolding orderly_def fst_after snd_after append_Cons append_Nil
    by blast
qed

lemma orderly_mono: "k \<le> k' \<Longrightarrow> orderly c k' r \<Longrightarrow> orderly c k r"
  by (auto simp add: orderly_def list_all_iff)

lemma orderly_check_routes: "orderly (syntax_ok fl w) 8 (check_routes fl w v)"
proof (cases "checkGinRoutes fl")
  case False
  then show ?thesis
    by (simp add: check_routes_def orderly_def map_filter_rank_Cons List.map_filter_simps calls_Cons)
next
  case True
  show ?thesis
  proof (cases "router_Run w (simulation_config fl v)")
    case Completes
    then show ?thesis using True
      by (simp add: check_routes_def RunRouterFunc_Completes orderly_def map_filter_rank_Cons
          List.map_filter_simps calls_Cons)
  next
    case (Panics r)
    show ?thesis
    proof (cases "\<exists>s. r = StringValue s")
      case True
      then obtain s where "r = StringValue s" by blast
      with Panics \<open>checkGinRoutes fl\<close> show ?thesis
        by (simp add: check_routes_def RunRouterFunc_Panics_string orderly_def map_filter_rank_Cons
            List.map_filter_simps calls_Cons)
    next
      case False
      with Panics \<open>checkGinRoutes fl\<close> show ?thesis
        by (simp add: check_routes_def RunRouterFunc_Panics_other orderly_def map_filter_rank_Cons
            List.map_filter_simps calls_Cons)
    qed
  qed
qed

lemma orderly_check_dump: "orderly (syntax_ok fl w) 7 (check_dump fl w v)"
proof (cases "debug fl > 0")
  case False
  then show ?thesis
    using orderly_mono [OF _ orderly_check_routes, of 7 fl w v] by (simp add: check_dump_def)
next
  case True
  show ?thesis
  proof (cases "dumper_Dump w (checkDumpPrefix fl) (debug fl) (IsTTY fl) v")
    case None
    then show ?thesis using True
      by (simp add: check_dump_def orderly_call [OF _ _ _ _ orderly_check_routes])
  next
    case (Some err)
    then show ?thesis using True
      by (simp add: check_dump_def orderly_report)
  qed
qed

lemma orderly_check_validate: "orderly (syntax_ok fl w) 6 (check_validate fl w v raw sch)"
proof (cases "sch_Validate w sch raw")
  case None
  then show ?thesis
    by (simp add: check_validate_def orderly_call [OF _ _ _ _ orderly_check_dump])
next
  case (Some err)
  then show ?thesis
    by (simp add: check_validate_def orderly_report)
qed

lemma orderly_compile_loader:
  "orderly (syntax_ok fl w) 4
     (after [CompileLoader p res]
        (case res of Inl err \<Rightarrow> report_error fl w headline err
         | Inr sch \<Rightarrow> check_validate fl w v raw sch))"
proof (cases res)
  case (Inl err)
  then show ?thesis by (simp add: orderly_report)
next
  case (Inr sch)
  then show ?thesis
    using orderly_call [OF _ _ _ _ orderly_check_validate, of "CompileLoader p res" 4 4 fl w v raw sch]
    by simp
qed

lemma orderly_compile_resource:
  "orderly (syntax_ok fl w) 5
     (after [CompileResource name d res]
        (case res of Inl err \<Rightarrow> report_error fl w headline err
         | Inr sch \<Rightarrow> check_validate fl w v raw sch))"
proof (cases res)
  case (Inl err)
  then show ?thesis by (simp add: orderly_report)
next
  case (Inr sch)
  then show ?thesis
    using orderly_call [OF _ _ _ _ orderly_check_validate, of "CompileResource name d res" 5 5 fl w v raw sch]
    by simp
qed

lemma orderly_check_schema: "orderly (syntax_ok fl w) 4 (check_schema fl w v raw)"
proof (cases "length (schemaPath fl) > 0 \<and> schemaFetchOnline fl")
  case True
  then show ?thesis by (simp add: check_schema_def orderly_exit)
next
  case False
  define p where "p = (if schemaFetchOnline fl \<or> rawEmbedSchema fl = []
                       then Sprintf onlineSchema [S (getVersionMinor (KrakendVersion w))]
                       else schemaPath fl)"
  show ?thesis
  proof (cases "length p > 0")
    case True
    have "check_schema fl w v raw =
            after [Print (Sprintf (''Using schema %s'' @ nl) [S p])]
              (after [CompileLoader p (compiler_Compile_loader w p)]
                 (case compiler_Compile_loader w p of
                    Inl err \<Rightarrow> report_error fl w ''ERROR compiling the custom schema:'' err
                  | Inr sch \<Rightarrow> check_validate fl w v raw sch))"
      using False True unfolding check_schema_def p_def Let_def after_two [symmetric]
      by (simp only: if_False if_True)
    then show ?thesis
      by (simp only: orderly_quiet [OF _ orderly_compile_loader] rank.simps)
  next
    case embedded: False
    have eq: "check_schema fl w v raw =
            after [UnmarshalEmbedded (rawEmbedSchema fl) (jsonschema_UnmarshalJSON w (rawEmbedSchema fl))]
              (case jsonschema_UnmarshalJSON w (rawEmbedSchema fl) of
                 Inl err \<Rightarrow> report_error fl w ''ERROR parsing the embed schema:'' err
               | Inr rawSchema \<Rightarrow>
                   after [CompileResource ''schema.json'' rawSchema
                            (compiler_Compile_resource w ''schema.json'' rawSchema)]
                     (case compiler_Compile_resource w ''schema.json'' rawSchema of
                        Inl err \<Rightarrow> report_error fl w ''ERROR compiling the embed schema:'' err
                      | Inr sch \<Rightarrow> check_validate fl w v raw sch))"
      using False embedded unfolding check_schema_def p_def Let_def
      by (simp only: if_False if_True)
    show ?thesis
    proof (cases "jsonschema_UnmarshalJSON w (rawEmbedSchema fl)")
      case (Inl err)
      then show ?thesis unfolding eq by (simp add: orderly_report)
    next
      case (Inr rawSchema)
      then show ?thesis unfolding eq
        using orderly_call [OF _ _ _ _ orderly_compile_resource,
            of "UnmarshalEmbedded (rawEmbedSchema fl) (Inr rawSchema)" 4 4]
        by simp
    qed
  qed
qed

lemma rank_load_content [simp]: "rank (fst (load_content fl w)) = Some 2"
  by (simp add: load_content_def split: option.splits)

lemma failed_load_content:
  "failed (fst (load_content fl w)) = (\<exists>err. snd (load_content fl w) = Inl err)"
  by (cases "snd (load_content fl w)") (auto simp add: load_content_def split: option.splits)

lemma orderly_json:
  "orderly (syntax_ok fl w) 3
     (after [JsonUnmarshal data res]
        (case res of
           Inl err \<Rightarrow> report_error fl w headline err
         | Inr raw \<Rightarrow> check_schema fl w v raw))"
proof (cases res)
  case (Inl err)
  then show ?thesis by (simp add: orderly_report)
next
  case (Inr raw)
  then show ?thesis
    using orderly_call [OF _ _ _ _ orderly_check_schema, of "JsonUnmarshal data res" 3 3 fl w v raw]
    by simp
qed

lemma orderly_check_lint: "orderly (syntax_ok fl w) 2 (check_lint fl w v)"
proof (cases "schemaValidation fl")
  case False
  then show ?thesis
    using orderly_mono [OF _ orderly_check_dump, of 2 fl w v] by (simp add: check_lint_def)
next
  case True
  have eq: "check_lint fl w v =
     after [Print (''Linting configuration file...'' @ nl)]
       (after [fst (load_content fl w)]
          (case snd (load_content fl w) of
             Inl err \<Rightarrow> report_error fl w ''ERROR loading the configuration content:'' err
           | Inr data \<Rightarrow>
                after [JsonUnmarshal data (json_Unmarshal w data)]
                  (case json_Unmarshal w data of
                     Inl err \<Rightarrow>
                       report_error fl w ''ERROR converting configuration content to JSON:'' err
                   | Inr raw \<Rightarrow> check_schema fl w v raw)))"
    using True unfolding check_lint_def Let_def after_two [symmetric] by (simp only: if_True)
  have "orderly (syntax_ok fl w) 2
       (after [fst (load_content fl w)]
          (case snd (load_content fl w) of
             Inl err \<Rightarrow> report_error fl w ''ERROR loading the configuration content:'' err
           | Inr data \<Rightarrow>
                after [JsonUnmarshal data (json_Unmarshal w data)]
                  (case json_Unmarshal w data of
                     Inl err \<Rightarrow>
                       report_error fl w ''ERROR converting configuration content to JSON:'' err
                   | Inr raw \<Rightarrow> check_schema fl w v raw)))"
  proof (cases "snd (load_content fl w)")
    case (Inl err)
    then show ?thesis by (simp add: orderly_report)
  next
    case (Inr data)
    then have "\<not> failed (fst (load_content fl w))"
      by (simp add: failed_load_content)
    then show ?thesis
      using Inr orderly_call [OF _ _ _ _ orderly_json, of "fst (load_content fl w)" 2 2]
      by simp
  qed
  then show ?thesis unfolding eq by (simp only: orderly_quiet rank.simps)
qed

lemma orderly_checkFunc: "orderly (syntax_ok fl w) 1 (checkFunc fl w)"
proof (cases "cfgFile fl = []")
  case True
  then show ?thesis by (simp add: checkFunc_def orderly_exit)
next
  case False
  have eq: "checkFunc fl w =
     after [Print (Sprintf (''Parsing configuration file: %s'' @ nl) [S (cfgFile fl)])]
       (after [Parse (cfgFile fl) (parser_Parse w (cfgFile fl))]
          (case parser_Parse w (cfgFile fl) of
             Inl err \<Rightarrow> report_error fl w ''ERROR parsing the configuration file:'' err
           | Inr v \<Rightarrow> check_lint fl w v))"
    using False unfolding checkFunc_def Let_def after_two [symmetric] by (simp only: if_False)
  have "orderly (syntax_ok fl w) 1
       (after [Parse (cfgFile fl) (parser_Parse w (cfgFile fl))]
          (case parser_Parse w (cfgFile fl) of
             Inl err \<Rightarrow> report_error fl w ''ERROR parsing the configuration file:'' err
           | Inr v \<Rightarrow> check_lint fl w v))"
  proof (cases "parser_Parse w (cfgFile fl)")
    case (Inl err)
    then show ?thesis by (simp add: orderly_report)
  next
    case (Inr v)
    then show ?thesis
      using orderly_call [OF _ _ _ _ orderly_check_lint, of "Parse (cfgFile fl) (Inr v)" 1 1]
      by simp
  qed
  then show ?thesis unfolding eq by (simp only: orderly_quiet rank.simps)
qed

lemma simulation_config_eq:
  "simulation_config fl v =
     v\<lparr>Debug := Debug v \<or> debug fl > 0, Port := (if port fl \<noteq> 0 then port fl else Port v)\<rparr>"
  by (simp add: simulation_config_def Let_def)

lemma check_routes_Returned:
  "(snd (check_routes fl w v) = Returned) =
     (\<not> checkGinRoutes fl \<or> router_Run w (simulation_config fl v) = Completes)"
proof (cases "router_Run w (simulation_config fl v)")
  case Completes
  then show ?thesis by (simp add: check_routes_def RunRouterFunc_Completes)
next
  case (Panics r)
  show ?thesis
  proof (cases "\<exists>s. r = StringValue s")
    case True
    then obtain s where "r = StringValue s" by blast
    with Panics show ?thesis by (simp add: check_routes_def RunRouterFunc_Panics_string)
  next
    case False
    with Panics show ?thesis by (simp add: check_routes_def RunRouterFunc_Panics_other)
  qed
qed

lemma check_dump_Returned:
  "(snd (check_dump fl w v) = Returned) =
     ((\<not> debug fl > 0 \<or> dumper_Dump w (checkDumpPrefix fl) (debug fl) (IsTTY fl) v = None) \<and>
      (\<not> checkGinRoutes fl \<or> router_Run w (simulation_config fl v) = Completes))"
  by (cases "dumper_Dump w (checkDumpPrefix fl) (debug fl) (IsTTY fl) v")
    (simp_all add: check_dump_def check_routes_Returned)

lemma check_validate_Returned:
  "(snd (check_validate fl w v raw sch) = Returned) =
     (sch_Validate w sch raw = None \<and> snd (check_dump fl w v) = Returned)"
  by (cases "sch_Validate w sch raw") (simp_all add: check_validate_def)

lemma onlineSchemaPath_not_empty: "Sprintf onlineSchema [S a] \<noteq> []"
  by (simp add: Sprintf_onlineSchema)

lemma check_schema_Returned:
  "(snd (check_schema fl w v raw) = Returned) =
     ((case resolveSchemaSource (schemaPath fl) (schemaFetchOnline fl) (rawEmbedSchema fl)
              (KrakendVersion w) of
         Inl _ \<Rightarrow> False
       | Inr src \<Rightarrow>
           (case load_and_compile w src of
              Inl _ \<Rightarrow> False
            | Inr sch \<Rightarrow> sch_Validate w sch raw = None)) \<and>
      snd (check_dump fl w v) = Returned)"
  unfolding check_schema_def resolveSchemaSource_def load_and_compile_def onlineSchemaPath_def Let_def
  by (simp add: onlineSchemaPath_not_empty check_validate_Returned split: sum.splits)

lemma snd_load_content:
  "snd (load_content fl w) =
     (case parser_LastSource w of Some res \<Rightarrow> res | None \<Rightarrow> os_ReadFile w (cfgFile fl))"
  by (simp add: load_content_def split: option.splits)

lemma check_lint_Returned:
  "(snd (check_lint fl w v) = Returned) =
     ((\<not> schemaValidation fl \<or> lint_succeeds fl w) \<and> snd (check_dump fl w v) = Returned)"
proof (cases "schemaValidation fl")
  case False
  then show ?thesis by (simp add: check_lint_def)
next
  case True
  show ?thesis
  proof (cases "snd (load_content fl w)")
    case (Inl err)
    then show ?thesis using True
      by (simp add: check_lint_def lint_succeeds_def snd_load_content [symmetric])
  next
    case (Inr data)
    show ?thesis
    proof (cases "json_Unmarshal w data")
      case (Inl err)
      then show ?thesis using True Inr
        by (simp add: check_lint_def lint_succeeds_def snd_load_content [symmetric])
    next
      case raw: (Inr raw)
      then show ?thesis using True Inr
        by (simp add: check_lint_def lint_succeeds_def snd_load_content [symmetric]
            check_schema_Returned)
    qed
  qed
qed

lemma checkFunc_Returned:
  "(snd (checkFunc fl w) = Returned) = all_requested_stages_succeed fl w"
  unfolding checkFunc_def all_requested_stages_succeed_def Let_def
  by (simp add: check_lint_Returned check_dump_Returned simulation_config_eq split: sum.splits)

lemma orderly_rank_bound:
  assumes "orderly c k r" and "e \<in> set (fst r)" and "rank e = Some n"
  shows "k \<le> n"
proof -
  from assms(2,3) have "n \<in> set (List.map_filter rank (fst r))"
    by (force simp add: List.map_filter_def)
  with assms(1) show ?thesis
    by (simp add: orderly_def list_all_iff)
qed

lemma check_routes_configs:
  "e \<in> set (fst (check_routes fl w v)) \<Longrightarrow>
     rank e = None \<or> e = RouterRun (simulation_config fl v) (router_Run w (simulation_config fl v))"
proof (cases "router_Run w (simulation_config fl v)")
  case Completes
  assume "e \<in> set (fst (check_routes fl w v))"
  with Completes show ?thesis
    by (cases "checkGinRoutes fl") (auto simp add: check_routes_def RunRouterFunc_Completes)
next
  case (Panics r)
  assume e: "e \<in> set (fst (check_routes fl w v))"
  show ?thesis
  proof (cases "\<exists>s. r = StringValue s")
    case True
    then obtain s where "r = StringValue s" by blast
    with Panics e show ?thesis
      by (cases "checkGinRoutes fl") (auto simp add: check_routes_def RunRouterFunc_Panics_string)
  next
    case False
    with Panics e show ?thesis
      by (cases "checkGinRoutes fl") (auto simp add: check_routes_def RunRouterFunc_Panics_other)
  qed
qed

lemma check_dump_configs:
  "e \<in> set (fst (check_dump fl w v)) \<Longrightarrow>
     rank e = None \<or>
     e = RouterRun (simulation_config fl v) (router_Run w (simulation_config fl v)) \<or>
     e = Dump v (debug fl) (dumper_Dump w (checkDumpPrefix fl) (debug fl) (IsTTY fl) v)"
  using check_routes_configs [of e fl w v]
  by (cases "dumper_Dump w (checkDumpPrefix fl) (debug fl) (IsTTY fl) v")
    (auto simp add: check_dump_def split: if_splits)

lemma check_validate_late:
  "e \<in> set (fst (check_validate fl w v raw sch)) \<Longrightarrow> rank e = Some n \<Longrightarrow> 7 \<le> n \<Longrightarrow>
     e \<in> set (fst (check_dump fl w v))"
  by (cases "sch_Validate w sch raw") (auto simp add: check_validate_def)

lemma check_schema_late:
  "e \<in> set (fst (check_schema fl w v raw)) \<Longrightarrow> rank e = Some n \<Longrightarrow> 7 \<le> n \<Longrightarrow>
     e \<in> set (fst (check_dump fl w v))"
  unfolding check_schema_def Let_def
  by (auto split: if_splits sum.splits dest: check_validate_late)

lemma check_lint_late:
  "e \<in> set (fst (check_lint fl w v)) \<Longrightarrow> rank e = Some n \<Longrightarrow> 7 \<le> n \<Longrightarrow>
     e \<in> set (fst (check_dump fl w v))"
  unfolding check_lint_def Let_def
  by (auto split: if_splits sum.splits dest: check_schema_late)

lemma checkFunc_late:
  "e \<in> set (fst (checkFunc fl w)) \<Longrightarrow> rank e = Some n \<Longrightarrow> 7 \<le> n \<Longrightarrow>
     \<exists>v. parser_Parse w (cfgFile fl) = Inr v \<and> e \<in> set (fst (check_dump fl w v))"
  unfolding checkFunc_def Let_def
  by (auto split: if_splits sum.splits dest: check_lint_late)

text \<open>
  Claim C9. The copy of the configuration that the route simulation works on differs
  from the configuration it was given in two fields at most: the debug flag is the old
  one or the command line's (so a set flag stays set), the port is the command line's
  when that is not zero and the old one otherwise; every other field is the same. In a
  run of \<open>checkFunc\<close> the dumper is given the configuration exactly as the parser
  returned it, and the router is given that configuration with the two overrides.
\<close>

theorem simulation_overrides_debug_and_port_only:
  "Debug (simulation_config fl cfg) = (Debug cfg \<or> debug fl > 0) \<and>
   Port (simulation_config fl cfg) = (if port fl \<noteq> 0 then port fl else Port cfg) \<and>
   ServiceConfig.more (simulation_config fl cfg) = ServiceConfig.more cfg \<and>
   (Debug cfg \<longrightarrow> Debug (simulation_config fl cfg)) \<and>
   (Dump c l r \<in> set (fst (checkFunc fl w)) \<longrightarrow> parser_Parse w (cfgFile fl) = Inr c) \<and>
   (RouterRun c' r' \<in> set (fst (checkFunc fl w)) \<longrightarrow>
      (\<exists>v. parser_Parse w (cfgFile fl) = Inr v \<and>
           c' = v\<lparr>Debug := Debug v \<or> debug fl > 0,
                   Port := (if port fl \<noteq> 0 then port fl else Port v)\<rparr>))"
proof -
  have 1: "Debug (simulation_config fl cfg) = (Debug cfg \<or> debug fl > 0)"
    by (simp add: simulation_config_def Let_def)
  have 2: "Port (simulation_config fl cfg) = (if port fl \<noteq> 0 then port fl else Port cfg)"
    by (simp add: simulation_config_def Let_def)
  have 3: "ServiceConfig.more (simulation_config fl cfg) = ServiceConfig.more cfg"
    by (simp add: simulation_config_def Let_def)
  have 4: "Dump c l r \<in> set (fst (checkFunc fl w)) \<longrightarrow> parser_Parse w (cfgFile fl) = Inr c"
  proof
    assume "Dump c l r \<in> set (fst (checkFunc fl w))"
    then obtain v where v: "parser_Parse w (cfgFile fl) = Inr v"
      and "Dump c l r \<in> set (fst (check_dump fl w v))"
      using checkFunc_late [of "Dump c l r" fl w 7] by auto
    then have "c = v" using check_dump_configs [of "Dump c l r" fl w v] by simp
    with v show "parser_Parse w (cfgFile fl) = Inr c" by simp
  qed
  have 5: "RouterRun c' r' \<in> set (fst (checkFunc fl w)) \<longrightarrow>
      (\<exists>v. parser_Parse w (cfgFile fl) = Inr v \<and>
           c' = v\<lparr>Debug := Debug v \<or> debug fl > 0,
                   Port := (if port fl \<noteq> 0 then port fl else Port v)\<rparr>)"
  proof
    assume "RouterRun c' r' \<in> set (fst (checkFunc fl w))"
    then obtain v where v: "parser_Parse w (cfgFile fl) = Inr v"
      and "RouterRun c' r' \<in> set (fst (check_dump fl w v))"
      using checkFunc_late [of "RouterRun c' r'" fl w 8] by auto
    then have "c' = simulation_config fl v"
      using check_dump_configs [of "RouterRun c' r'" fl w v] by simp
    with v show "\<exists>v. parser_Parse w (cfgFile fl) = Inr v \<and>
           c' = v\<lparr>Debug := Debug v \<or> debug fl > 0,
                   Port := (if port fl \<noteq> 0 then port fl else Port v)\<rparr>"
      by (simp add: simulation_config_eq)
  qed
  from 1 2 3 4 5 show ?thesis by simp
qed

lemma example_trace:
  "fst (checkFunc example_flags example_world) =
     [Print (''Parsing configuration file: krakend.json'' @ nl),
      Parse ''krakend.json'' (Inr example_config),
      Print (''Linting configuration file...'' @ nl),
      LastSource (Inr ''{}''),
      JsonUnmarshal ''{}'' (Inr ''{}''),
      UnmarshalEmbedded ''{}'' (Inr ''{}''),
      CompileResource ''schema.json'' ''{}'' (Inr ''{}''),
      Validate ''{}'' ''{}'' None,
      Dump example_config 1 None,
      GinSetMode, ContextWithTimeout,
      RouterRun \<lparr>Debug = True, Port = 8080\<rparr> Completes,
      ContextCancel,
      Print (''Syntax OK!'' @ nl)]"
  by (simp add: checkFunc_def check_lint_def check_schema_def check_validate_def check_dump_def
      check_routes_def RunRouterFunc_Completes load_content_def Let_def
      example_simulation_config [unfolded example_flags_def] example_world_def example_flags_def syntax_ok_def Println_def tab_def nl_def)

theorem simulation_overrides_debug_and_port_only_witness:
  "Dump example_config 1 None \<in> set (fst (checkFunc example_flags example_world)) \<and>
   parser_Parse example_world (cfgFile example_flags) = Inr example_config \<and>
   RouterRun \<lparr>Debug = True, Port = 8080\<rparr> Completes \<in> set (fst (checkFunc example_flags example_world)) \<and>
   simulation_config example_flags example_config = \<lparr>Debug = True, Port = 8080\<rparr> \<and>
   Debug \<lparr>Debug = True, Port = 80\<rparr> \<and>
   simulation_config (example_flags\<lparr>debug := 0, port := 0\<rparr>) \<lparr>Debug = True, Port = 80\<rparr>
     = \<lparr>Debug = True, Port = 80\<rparr>"
proof -
  note t = simulation_overrides_debug_and_port_only
    [of example_flags example_config example_config 1 None example_world
        "\<lparr>Debug = True, Port = 8080\<rparr>" Completes]
  note u = simulation_overrides_debug_and_port_only
    [of "example_flags\<lparr>debug := 0, port := 0\<rparr>" "\<lparr>Debug = True, Port = 80\<rparr>"
        example_config 1 None example_world "\<lparr>Debug = True, Port = 8080\<rparr>" Completes]
  have 1: "Dump example_config 1 None \<in> set (fst (checkFunc example_flags example_world))"
    by (simp add: example_trace)
  from t 1 have 2: "parser_Parse example_world (cfgFile example_flags) = Inr example_config"
    by blast
  have 3: "RouterRun \<lparr>Debug = True, Port = 8080\<rparr> Completes
             \<in> set (fst (checkFunc example_flags example_world))"
    by (simp add: example_trace)
  from u have 4: "Debug (simulation_config (example_flags\<lparr>debug := 0, port := 0\<rparr>) \<lparr>Debug = True, Port = 80\<rparr>)"
    and 5: "Port (simulation_config (example_flags\<lparr>debug := 0, port := 0\<rparr>) \<lparr>Debug = True, Port = 80\<rparr>) = 80"
    and 6: "ServiceConfig.more (simulation_config (example_flags\<lparr>debug := 0, port := 0\<rparr>) \<lparr>Debug = True, Port = 80\<rparr>) = ()"
    by simp_all
  from 4 5 6 have 7: "simulation_config (example_flags\<lparr>debug := 0, port := 0\<rparr>) \<lparr>Debug = True, Port = 80\<rparr>
     = \<lparr>Debug = True, Port = 80\<rparr>"
    by (cases "simulation_config (example_flags\<lparr>debug := 0, port := 0\<rparr>) \<lparr>Debug = True, Port = 80\<rparr>") simp
  from 1 2 3 7 show ?thesis by (simp add: example_simulation_config)
qed

lemma check_lint_events:
  "e \<in> set (fst (check_lint fl w v)) \<Longrightarrow>
     rank e = None \<or>
     e \<in> set (fst (check_dump fl w v)) \<or>
     schemaValidation fl \<and>
       (e = fst (load_content fl w) \<or>
        (\<exists>d. snd (load_content fl w) = Inr d \<and>
           (e = JsonUnmarshal d (json_Unmarshal w d) \<or>
            (\<exists>raw. json_Unmarshal w d = Inr raw \<and> e \<in> set (fst (check_schema fl w v raw))))))"
  unfolding check_lint_def Let_def
  by (auto split: if_splits sum.splits)

lemma checkFunc_events:
  "e \<in> set (fst (checkFunc fl w)) \<Longrightarrow>
     rank e = None \<or>
     cfgFile fl \<noteq> [] \<and>
       (e = Parse (cfgFile fl) (parser_Parse w (cfgFile fl)) \<or>
        (\<exists>v. parser_Parse w (cfgFile fl) = Inr v \<and> e \<in> set (fst (check_lint fl w v))))"
  unfolding checkFunc_def Let_def
  by (auto split: if_splits sum.splits)

lemma check_lint_in_checkFunc:
  "cfgFile fl \<noteq> [] \<Longrightarrow> parser_Parse w (cfgFile fl) = Inr v \<Longrightarrow>
     e \<in> set (fst (check_lint fl w v)) \<Longrightarrow> e \<in> set (fst (checkFunc fl w))"
  by (simp add: checkFunc_def)

lemma load_content_in_check_lint:
  "schemaValidation fl \<Longrightarrow> fst (load_content fl w) \<in> set (fst (check_lint fl w v))"
  by (simp add: check_lint_def)

lemma JsonUnmarshal_in_check_lint:
  "schemaValidation fl \<Longrightarrow> snd (load_content fl w) = Inr d \<Longrightarrow>
     JsonUnmarshal d (json_Unmarshal w d) \<in> set (fst (check_lint fl w v))"
  by (simp add: check_lint_def Let_def)

text \<open>What the pipeline does before it chooses a schema: only the raw bytes and their decoding.\<close>

lemma early_event:
  assumes e: "e \<in> set (fst (checkFunc fl w))" and n: "rank e = Some n" "2 \<le> n" "n \<le> 3"
  shows "schemaValidation fl \<and>
         (e = fst (load_content fl w) \<or>
          (\<exists>d. snd (load_content fl w) = Inr d \<and> e = JsonUnmarshal d (json_Unmarshal w d)))"
proof -
  from checkFunc_events [OF e] n obtain v
    where "e \<in> set (fst (check_lint fl w v))"
    by auto
  from check_lint_events [OF this] n show ?thesis
    using orderly_rank_bound [OF orderly_check_dump, of e fl w v n]
      orderly_rank_bound [OF orderly_check_schema, of e fl w v _ n]
    by auto
qed

text \<open>
  Claim C8. In a run that lints a configuration that parsed: when the parser has the
  last-source capability, its \<open>LastSource\<close> is called, the file is not read, and the bytes
  decoded as JSON are the ones it returned; when the parser lacks the capability, the
  configuration file is read, and the bytes decoded are the ones read.
\<close>

theorem raw_bytes_from_parser_first:
  assumes "schemaValidation fl" and "cfgFile fl \<noteq> ''''" and "parser_Parse w (cfgFile fl) = Inr v"
  shows
    "(parser_LastSource w = Some res \<longrightarrow>
        LastSource res \<in> set (fst (checkFunc fl w)) \<and>
        (\<forall>p r. ReadFile p r \<notin> set (fst (checkFunc fl w))) \<and>
        (\<forall>d r. JsonUnmarshal d r \<in> set (fst (checkFunc fl w)) \<longrightarrow> res = Inr d) \<and>
        (\<forall>d. res = Inr d \<longrightarrow> JsonUnmarshal d (json_Unmarshal w d) \<in> set (fst (checkFunc fl w)))) \<and>
     (parser_LastSource w = None \<longrightarrow>
        ReadFile (cfgFile fl) (os_ReadFile w (cfgFile fl)) \<in> set (fst (checkFunc fl w)) \<and>
        (\<forall>r. LastSource r \<notin> set (fst (checkFunc fl w))) \<and>
        (\<forall>d r. JsonUnmarshal d r \<in> set (fst (checkFunc fl w)) \<longrightarrow> os_ReadFile w (cfgFile fl) = Inr d) \<and>
        (\<forall>d. os_ReadFile w (cfgFile fl) = Inr d \<longrightarrow>
             JsonUnmarshal d (json_Unmarshal w d) \<in> set (fst (checkFunc fl w))))"
proof (intro conjI impI)
  assume ls: "parser_LastSource w = Some res"
  then have lc: "load_content fl w = (LastSource res, res)"
    by (simp add: load_content_def)
  show "LastSource res \<in> set (fst (checkFunc fl w))"
    using load_content_in_check_lint [OF assms(1), of w v] lc
    by (simp add: check_lint_in_checkFunc [OF assms(2,3)])
  show "\<forall>p r. ReadFile p r \<notin> set (fst (checkFunc fl w))"
    using early_event [of "ReadFile _ _" fl w 2] lc by auto
  show "\<forall>d r. JsonUnmarshal d r \<in> set (fst (checkFunc fl w)) \<longrightarrow> res = Inr d"
    using early_event [of "JsonUnmarshal _ _" fl w 3] lc by auto
  show "\<forall>d. res = Inr d \<longrightarrow> JsonUnmarshal d (json_Unmarshal w d) \<in> set (fst (checkFunc fl w))"
    using JsonUnmarshal_in_check_lint [OF assms(1), of w _ v] lc
    by (simp add: check_lint_in_checkFunc [OF assms(2,3)])
next
  assume ls: "parser_LastSource w = None"
  then have lc: "load_content fl w =
      (ReadFile (cfgFile fl) (os_ReadFile w (cfgFile fl)), os_ReadFile w (cfgFile fl))"
    by (simp add: load_content_def)
  show "ReadFile (cfgFile fl) (os_ReadFile w (cfgFile fl)) \<in> set (fst (checkFunc fl w))"
    using load_content_in_check_lint [OF assms(1), of w v] lc
    by (simp add: check_lint_in_checkFunc [OF assms(2,3)])
  show "\<forall>r. LastSource r \<notin> set (fst (checkFunc fl w))"
    using early_event [of "LastSource _" fl w 2] lc by auto
  show "\<forall>d r. JsonUnmarshal d r \<in> set (fst (checkFunc fl w)) \<longrightarrow> os_ReadFile w (cfgFile fl) = Inr d"
    using early_event [of "JsonUnmarshal _ _" fl w 3] lc by auto
  show "\<forall>d. os_ReadFile w (cfgFile fl) = Inr d \<longrightarrow>
          JsonUnmarshal d (json_Unmarshal w d) \<in> set (fst (checkFunc fl w))"
    using JsonUnmarshal_in_check_lint [OF assms(1), of w _ v] lc
    by (simp add: check_lint_in_checkFunc [OF assms(2,3)])
qed

lemma plain_parser_trace:
  "fst (checkFunc example_flags world_plain_parser) =
     [Print (''Parsing configuration file: krakend.json'' @ nl),
      Parse ''krakend.json'' (Inr example_config),
      Print (''Linting configuration file...'' @ nl),
      ReadFile ''krakend.json'' (Inr ''{ }''),
      JsonUnmarshal ''{ }'' (Inr ''{ }''),
      UnmarshalEmbedded ''{}'' (Inr ''{}''),
      CompileResource ''schema.json'' ''{}'' (Inr ''{}''),
      Validate ''{}'' ''{ }'' None,
      Dump example_config 1 None,
      GinSetMode, ContextWithTimeout,
      RouterRun \<lparr>Debug = True, Port = 8080\<rparr> Completes,
      ContextCancel,
      Print (''Syntax OK!'' @ nl)]"
  by (simp add: checkFunc_def check_lint_def check_schema_def check_validate_def check_dump_def
      check_routes_def RunRouterFunc_Completes load_content_def Let_def
      example_simulation_config [unfolded example_flags_def] world_plain_parser_def
      example_world_def example_flags_def syntax_ok_def Println_def tab_def nl_def)

theorem raw_bytes_from_parser_first_witness:
  "schemaValidation example_flags \<and> cfgFile example_flags \<noteq> '''' \<and>
   parser_Parse example_world (cfgFile example_flags) = Inr example_config \<and>
   parser_LastSource example_world = Some (Inr ''{}'') \<and>
   LastSource (Inr ''{}'') \<in> set (fst (checkFunc example_flags example_world)) \<and>
   JsonUnmarshal ''{}'' (Inr ''{}'') \<in> set (fst (checkFunc example_flags example_world)) \<and>
   ReadFile ''krakend.json'' (Inr ''{ }'') \<notin> set (fst (checkFunc example_flags example_world)) \<and>
   parser_Parse world_plain_parser (cfgFile example_flags) = Inr example_config \<and>
   parser_LastSource world_plain_parser = None \<and>
   ReadFile ''krakend.json'' (Inr ''{ }'') \<in> set (fst (checkFunc example_flags world_plain_parser)) \<and>
   JsonUnmarshal ''{ }'' (Inr ''{ }'') \<in> set (fst (checkFunc example_flags world_plain_parser)) \<and>
   LastSource (Inr ''{}'') \<notin> set (fst (checkFunc example_flags world_plain_parser))"
proof -
  have lint: "schemaValidation example_flags" and cfg: "cfgFile example_flags \<noteq> ''''"
    by (simp_all add: example_flags_def)
  have cfg_name: "cfgFile example_flags = ''krakend.json''"
    by (simp add: example_flags_def)
  have p1: "parser_Parse example_world (cfgFile example_flags) = Inr example_config"
    and s1: "parser_LastSource example_world = Some (Inr ''{}'')"
    and j1: "json_Unmarshal example_world ''{}'' = Inr ''{}''"
    by (simp_all add: example_world_def)
  have p2: "parser_Parse world_plain_parser (cfgFile example_flags) = Inr example_config"
    and s2: "parser_LastSource world_plain_parser = None"
    and r2: "os_ReadFile world_plain_parser ''krakend.json'' = Inr ''{ }''"
    and j2: "json_Unmarshal world_plain_parser ''{ }'' = Inr ''{ }''"
    by (simp_all add: world_plain_parser_def example_world_def)
  note a = raw_bytes_from_parser_first [OF lint cfg p1, of "Inr ''{}''"]
  note b = raw_bytes_from_parser_first [OF lint cfg p2, of "Inr ''{}''"]
  from a s1 have a1: "LastSource (Inr ''{}'') \<in> set (fst (checkFunc example_flags example_world))"
    and a2: "JsonUnmarshal ''{}'' (json_Unmarshal example_world ''{}'') \<in> set (fst (checkFunc example_flags example_world))"
    and a3: "ReadFile ''krakend.json'' (Inr ''{ }'') \<notin> set (fst (checkFunc example_flags example_world))"
    by blast+
  from b s2 have b1: "ReadFile (cfgFile example_flags) (os_ReadFile world_plain_parser (cfgFile example_flags))
        \<in> set (fst (checkFunc example_flags world_plain_parser))"
    and b3: "LastSource (Inr ''{}'') \<notin> set (fst (checkFunc example_flags world_plain_parser))"
    by blast+
  from b s2 r2 have b2: "JsonUnmarshal ''{ }'' (json_Unmarshal world_plain_parser ''{ }'')
        \<in> set (fst (checkFunc example_flags world_plain_parser))"
    unfolding cfg_name by blast
  from lint cfg p1 s1 a1 a2 a3 p2 s2 b1 b2 b3 show ?thesis
    by (simp add: j1 j2 r2 cfg_name)
qed

lemma schema_loading_rank: "schema_loading e \<Longrightarrow> rank e = Some 4 \<or> rank e = Some 5"
  by (cases e) simp_all

lemma check_schema_conflict:
  "schemaPath fl \<noteq> [] \<Longrightarrow> schemaFetchOnline fl \<Longrightarrow>
     check_schema fl w v raw = ([Println (errorMsg fl w conflict_message)], Exited 1)"
  by (simp add: check_schema_def)

text \<open>
  Claim C3. With a non-empty schema path and the online schema requested, the choice
  of the schema fails, whatever the embedded schema, the version and the configuration
  are: it prints the message of the conflict and exits with status 1. No run loads or
  compiles a schema; every run that lints exits with status 1; and a run that reaches
  the choice (the configuration parsed, its bytes were obtained and decoded) ends with
  the message of the conflict.
\<close>

theorem conflicting_options_stop_the_run:
  assumes "schemaPath fl \<noteq> ''''" and "schemaFetchOnline fl"
  shows
    "check_schema fl w v raw = ([Println (errorMsg fl w conflict_message)], Exited 1) \<and>
     resolveSchemaSource (schemaPath fl) (schemaFetchOnline fl) embedded ver = Inl ConflictingOptions \<and>
     (\<forall>e \<in> set (fst (checkFunc fl w)). \<not> schema_loading e) \<and>
     (schemaValidation fl \<longrightarrow> snd (checkFunc fl w) = Exited 1) \<and>
     (schemaValidation fl \<and> cfgFile fl \<noteq> '''' \<and> parser_Parse w (cfgFile fl) = Inr v \<and>
      snd (load_content fl w) = Inr data \<and> json_Unmarshal w data = Inr raw \<longrightarrow>
        last (fst (checkFunc fl w)) = Println (errorMsg fl w conflict_message))"
proof -
  note conflict = check_schema_conflict [OF assms]
  have 1: "check_schema fl w v raw = ([Println (errorMsg fl w conflict_message)], Exited 1)"
    by (rule conflict)
  have 2: "resolveSchemaSource (schemaPath fl) (schemaFetchOnline fl) embedded ver = Inl ConflictingOptions"
    using assms by (simp add: resolveSchemaSource_def)
  have 3: "\<forall>e \<in> set (fst (checkFunc fl w)). \<not> schema_loading e"
  proof
    fix e assume e: "e \<in> set (fst (checkFunc fl w))"
    show "\<not> schema_loading e"
    proof
      assume sl: "schema_loading e"
      then obtain n where n: "rank e = Some n" "4 \<le> n" "n \<le> 5"
        using schema_loading_rank [of e] by auto
      from checkFunc_events [OF e] n obtain v' where "e \<in> set (fst (check_lint fl w v'))"
        using sl by auto
      from check_lint_events [OF this] n sl
      show False
        using orderly_rank_bound [OF orderly_check_dump, of e fl w v' n]
        by (auto simp add: conflict load_content_def split: option.splits)
    qed
  qed
  have 4: "schemaValidation fl \<longrightarrow> snd (checkFunc fl w) = Exited 1"
    unfolding checkFunc_def check_lint_def Let_def
    by (simp add: conflict split: sum.splits)
  have 5: "schemaValidation fl \<and> cfgFile fl \<noteq> '''' \<and> parser_Parse w (cfgFile fl) = Inr v \<and>
      snd (load_content fl w) = Inr data \<and> json_Unmarshal w data = Inr raw \<longrightarrow>
        last (fst (checkFunc fl w)) = Println (errorMsg fl w conflict_message)"
    unfolding checkFunc_def check_lint_def Let_def
    by (simp add: conflict)
  from 1 2 3 4 5 show ?thesis by blast
qed

lemma conflicting_trace:
  "checkFunc conflicting_flags example_world =
     ([Print (''Parsing configuration file: krakend.json'' @ nl),
       Parse ''krakend.json'' (Inr example_config),
       Print (''Linting configuration file...'' @ nl),
       LastSource (Inr ''{}''),
       JsonUnmarshal ''{}'' (Inr ''{}''),
       Print (conflict_message @ nl)],
      Exited 1)"
  by (simp add: checkFunc_def check_lint_def check_schema_def load_content_def Let_def after_def
      conflicting_flags_def example_world_def example_flags_def errorMsg_def Println_def
      tab_def nl_def)

theorem conflicting_options_stop_the_run_witness:
  "schemaPath conflicting_flags \<noteq> '''' \<and> schemaFetchOnline conflicting_flags \<and>
   schemaValidation conflicting_flags \<and>
   snd (checkFunc conflicting_flags example_world) = Exited 1 \<and>
   last (fst (checkFunc conflicting_flags example_world)) = Print (conflict_message @ nl) \<and>
   \<not> schema_loading (last (fst (checkFunc conflicting_flags example_world)))"
proof -
  have h: "schemaPath conflicting_flags \<noteq> ''''" "schemaFetchOnline conflicting_flags"
    and lint: "schemaValidation conflicting_flags"
    and cfg: "cfgFile conflicting_flags \<noteq> ''''"
    by (simp_all add: conflicting_flags_def example_flags_def)
  have reach: "parser_Parse example_world (cfgFile conflicting_flags) = Inr example_config"
    "snd (load_content conflicting_flags example_world) = Inr ''{}''"
    "json_Unmarshal example_world ''{}'' = Inr ''{}''"
    by (simp_all add: example_world_def load_content_def)
  note t = conflicting_options_stop_the_run [OF h, of example_world example_config "''{}''" _ _ "''{}''"]
  from t lint have 1: "snd (checkFunc conflicting_flags example_world) = Exited 1"
    by blast
  from t lint cfg reach
  have 2: "last (fst (checkFunc conflicting_flags example_world))
             = Println (errorMsg conflicting_flags example_world conflict_message)"
    by blast
  have 3: "Println (errorMsg conflicting_flags example_world conflict_message)
             = (Print (conflict_message @ nl) :: (unit, string, string, string) event)"
    by (simp add: Println_def errorMsg_def conflicting_flags_def example_flags_def)
  have "last (fst (checkFunc conflicting_flags example_world))
          \<in> set (fst (checkFunc conflicting_flags example_world))"
    by (simp add: conflicting_trace)
  with t have 4: "\<not> schema_loading (last (fst (checkFunc conflicting_flags example_world)))"
    by blast
  from h lint 1 2 3 4 show ?thesis by simp
qed

lemma Sprintf_using: "Sprintf (''Using schema %s'' @ nl) [S p] = ''Using schema '' @ p @ nl"
  by (simp add: nl_def)

lemma check_validate_events:
  "e \<in> set (fst (check_validate fl w v raw sch)) \<Longrightarrow>
     rank e = None \<or> e = Validate sch raw (sch_Validate w sch raw) \<or>
     e \<in> set (fst (check_dump fl w v))"
  by (cases "sch_Validate w sch raw") (auto simp add: check_validate_def)

lemma check_schema_loader:
  assumes "\<not> (schemaPath fl \<noteq> [] \<and> schemaFetchOnline fl)"
    and "p = (if schemaFetchOnline fl \<or> rawEmbedSchema fl = []
              then onlineSchemaPath (KrakendVersion w) else schemaPath fl)"
    and "p \<noteq> []"
  shows "check_schema fl w v raw =
           after [Print (''Using schema '' @ p @ nl), CompileLoader p (compiler_Compile_loader w p)]
             (case compiler_Compile_loader w p of
                Inl err \<Rightarrow> report_error fl w ''ERROR compiling the custom schema:'' err
              | Inr sch \<Rightarrow> check_validate fl w v raw sch)"
proof -
  have nc: "\<not> (0 < length (schemaPath fl) \<and> schemaFetchOnline fl)"
    using assms(1) by simp
  have p: "(if schemaFetchOnline fl \<or> rawEmbedSchema fl = []
            then Sprintf onlineSchema [S (getVersionMinor (KrakendVersion w))]
            else schemaPath fl) = p"
    using assms(2) by (simp add: onlineSchemaPath_def)
  have len: "0 < length p"
    using assms(3) by simp
  show ?thesis
    unfolding check_schema_def Let_def p
    by (simp only: nc if_False len if_True Sprintf_using)
qed

lemma check_schema_embedded:
  assumes "\<not> schemaFetchOnline fl" and "rawEmbedSchema fl \<noteq> []" and "schemaPath fl = []"
  shows "check_schema fl w v raw =
           after [UnmarshalEmbedded (rawEmbedSchema fl) (jsonschema_UnmarshalJSON w (rawEmbedSchema fl))]
             (case jsonschema_UnmarshalJSON w (rawEmbedSchema fl) of
                Inl err \<Rightarrow> report_error fl w ''ERROR parsing the embed schema:'' err
              | Inr rawSchema \<Rightarrow>
                  after [CompileResource ''schema.json'' rawSchema
                           (compiler_Compile_resource w ''schema.json'' rawSchema)]
                    (case compiler_Compile_resource w ''schema.json'' rawSchema of
                       Inl err \<Rightarrow> report_error fl w ''ERROR compiling the embed schema:'' err
                     | Inr sch \<Rightarrow> check_validate fl w v raw sch))"
proof -
  have nc: "\<not> (0 < length (schemaPath fl) \<and> schemaFetchOnline fl)"
    using assms(1) by simp
  have p: "(if schemaFetchOnline fl \<or> rawEmbedSchema fl = []
            then Sprintf onlineSchema [S (getVersionMinor (KrakendVersion w))]
            else schemaPath fl) = []"
    using assms by simp
  have len: "\<not> 0 < length ([] :: string)"
    by simp
  show ?thesis
    unfolding check_schema_def Let_def p
    by (simp only: nc if_False len)
qed

lemma loader_events:
  assumes eq: "check_schema fl w v raw =
           after [Print (''Using schema '' @ p @ nl), CompileLoader p (compiler_Compile_loader w p)]
             (case compiler_Compile_loader w p of
                Inl err \<Rightarrow> report_error fl w ''ERROR compiling the custom schema:'' err
              | Inr sch \<Rightarrow> check_validate fl w v raw sch)"
    and e: "e \<in> set (fst (check_schema fl w v raw))"
  shows "rank e = None \<or> e = CompileLoader p (compiler_Compile_loader w p) \<or>
         (\<exists>sch. compiler_Compile_loader w p = Inr sch \<and> e = Validate sch raw (sch_Validate w sch raw)) \<or>
         e \<in> set (fst (check_dump fl w v))"
  using e check_validate_events [of e fl w v raw] unfolding eq
  by (cases "compiler_Compile_loader w p") auto

lemma embedded_events:
  assumes "\<not> schemaFetchOnline fl" and "rawEmbedSchema fl \<noteq> []" and "schemaPath fl = []"
    and e: "e \<in> set (fst (check_schema fl w v raw))"
  shows "rank e = None \<or>
         e = UnmarshalEmbedded (rawEmbedSchema fl) (jsonschema_UnmarshalJSON w (rawEmbedSchema fl)) \<or>
         (\<exists>d. jsonschema_UnmarshalJSON w (rawEmbedSchema fl) = Inr d \<and>
            (e = CompileResource ''schema.json'' d (compiler_Compile_resource w ''schema.json'' d) \<or>
             (\<exists>sch. compiler_Compile_resource w ''schema.json'' d = Inr sch \<and>
                e = Validate sch raw (sch_Validate w sch raw)))) \<or>
         e \<in> set (fst (check_dump fl w v))"
proof (cases "jsonschema_UnmarshalJSON w (rawEmbedSchema fl)")
  case (Inl err)
  with e show ?thesis unfolding check_schema_embedded [OF assms(1-3)] by auto
next
  case (Inr d)
  with e show ?thesis unfolding check_schema_embedded [OF assms(1-3)]
    using check_validate_events [of e fl w v raw]
    by (cases "compiler_Compile_resource w ''schema.json'' d") auto
qed

lemma check_dump_quiet:
  "e \<in> set (fst (check_dump fl w v)) \<Longrightarrow> \<not> schema_loading e \<and> \<not> outside_access e \<and>
     (\<forall>sch j r. e \<noteq> Validate sch j r)"
  using check_dump_configs [of e fl w v] by (cases e) auto

text \<open>
  Claim C4. When the options do not conflict, the schema is chosen in this order. If
  the online schema is requested or there is no embedded schema, the schema is compiled
  through the loader from the online location of the running version, also when a
  custom location was given. Otherwise, if a custom location was given, it is compiled
  through the loader from that location. Otherwise the embedded text is parsed and
  compiled as a resource, and the choice reads no file and uses no loader. In each case
  nothing else loads a schema, and the schema the configuration is validated against is
  the one of the source that the specification's resolution names.
\<close>

theorem schema_source_selection:
  assumes "\<not> (schemaPath fl \<noteq> '''' \<and> schemaFetchOnline fl)"
  shows
    "(schemaFetchOnline fl \<or> rawEmbedSchema fl = '''' \<longrightarrow>
        take 2 (fst (check_schema fl w v raw)) =
          [Print (''Using schema '' @ onlineSchemaPath (KrakendVersion w) @ nl),
           CompileLoader (onlineSchemaPath (KrakendVersion w))
             (compiler_Compile_loader w (onlineSchemaPath (KrakendVersion w)))] \<and>
        (\<forall>e \<in> set (fst (check_schema fl w v raw)). schema_loading e \<longrightarrow>
           e = CompileLoader (onlineSchemaPath (KrakendVersion w))
                 (compiler_Compile_loader w (onlineSchemaPath (KrakendVersion w))))) \<and>
     (\<not> schemaFetchOnline fl \<and> rawEmbedSchema fl \<noteq> '''' \<and> schemaPath fl \<noteq> '''' \<longrightarrow>
        take 2 (fst (check_schema fl w v raw)) =
          [Print (''Using schema '' @ schemaPath fl @ nl),
           CompileLoader (schemaPath fl) (compiler_Compile_loader w (schemaPath fl))] \<and>
        (\<forall>e \<in> set (fst (check_schema fl w v raw)). schema_loading e \<longrightarrow>
           e = CompileLoader (schemaPath fl) (compiler_Compile_loader w (schemaPath fl)))) \<and>
     (\<not> schemaFetchOnline fl \<and> rawEmbedSchema fl \<noteq> '''' \<and> schemaPath fl = '''' \<longrightarrow>
        hd (fst (check_schema fl w v raw)) =
          UnmarshalEmbedded (rawEmbedSchema fl) (jsonschema_UnmarshalJSON w (rawEmbedSchema fl)) \<and>
        (\<forall>e \<in> set (fst (check_schema fl w v raw)). \<not> outside_access e)) \<and>
     (\<exists>src. resolveSchemaSource (schemaPath fl) (schemaFetchOnline fl) (rawEmbedSchema fl)
              (KrakendVersion w) = Inr src \<and>
        (\<forall>sch j r. Validate sch j r \<in> set (fst (check_schema fl w v raw)) \<longrightarrow>
           load_and_compile w src = Inr sch \<and> j = raw))"
proof -
  have online_not_empty: "onlineSchemaPath (KrakendVersion w) \<noteq> []"
    by (simp add: onlineSchemaPath_def onlineSchemaPath_not_empty)
  have loader: "take 2 (fst (check_schema fl w v raw)) =
          [Print (''Using schema '' @ p @ nl), CompileLoader p (compiler_Compile_loader w p)] \<and>
        (\<forall>e \<in> set (fst (check_schema fl w v raw)). schema_loading e \<longrightarrow>
           e = CompileLoader p (compiler_Compile_loader w p)) \<and>
        (\<forall>sch j r. Validate sch j r \<in> set (fst (check_schema fl w v raw)) \<longrightarrow>
           compiler_Compile_loader w p = Inr sch \<and> j = raw)"
    if p: "p = (if schemaFetchOnline fl \<or> rawEmbedSchema fl = []
                then onlineSchemaPath (KrakendVersion w) else schemaPath fl)" "p \<noteq> []"
    for p
  proof -
    note eq = check_schema_loader [OF assms p, of v raw]
    have a: "take 2 (fst (check_schema fl w v raw)) =
          [Print (''Using schema '' @ p @ nl), CompileLoader p (compiler_Compile_loader w p)]"
      unfolding eq by simp
    have b: "\<forall>e \<in> set (fst (check_schema fl w v raw)). schema_loading e \<longrightarrow>
           e = CompileLoader p (compiler_Compile_loader w p)"
    proof (intro ballI impI)
      fix e assume "e \<in> set (fst (check_schema fl w v raw))" and sl: "schema_loading e"
      from loader_events [OF eq this(1)] sl schema_loading_rank [OF sl] check_dump_quiet [of e fl w v]
      show "e = CompileLoader p (compiler_Compile_loader w p)" by auto
    qed
    have c: "\<forall>sch j r. Validate sch j r \<in> set (fst (check_schema fl w v raw)) \<longrightarrow>
           compiler_Compile_loader w p = Inr sch \<and> j = raw"
    proof (intro allI impI)
      fix sch j r assume "Validate sch j r \<in> set (fst (check_schema fl w v raw))"
      from loader_events [OF eq this] check_dump_quiet [of "Validate sch j r" fl w v]
      show "compiler_Compile_loader w p = Inr sch \<and> j = raw" by auto
    qed
    from a b c show ?thesis by blast
  qed
  have embedded: "hd (fst (check_schema fl w v raw)) =
          UnmarshalEmbedded (rawEmbedSchema fl) (jsonschema_UnmarshalJSON w (rawEmbedSchema fl)) \<and>
        (\<forall>e \<in> set (fst (check_schema fl w v raw)). \<not> outside_access e) \<and>
        (\<forall>sch j r. Validate sch j r \<in> set (fst (check_schema fl w v raw)) \<longrightarrow>
           load_and_compile w (EmbeddedDefault (rawEmbedSchema fl)) = Inr sch \<and> j = raw)"
    if h: "\<not> schemaFetchOnline fl" "rawEmbedSchema fl \<noteq> []" "schemaPath fl = []"
  proof -
    have a: "hd (fst (check_schema fl w v raw)) =
          UnmarshalEmbedded (rawEmbedSchema fl) (jsonschema_UnmarshalJSON w (rawEmbedSchema fl))"
      unfolding check_schema_embedded [OF h] by simp
    have b: "\<forall>e \<in> set (fst (check_schema fl w v raw)). \<not> outside_access e"
    proof
      fix e assume "e \<in> set (fst (check_schema fl w v raw))"
      from embedded_events [OF h this] check_dump_quiet [of e fl w v]
      show "\<not> outside_access e" by (cases e) auto
    qed
    have c: "\<forall>sch j r. Validate sch j r \<in> set (fst (check_schema fl w v raw)) \<longrightarrow>
           load_and_compile w (EmbeddedDefault (rawEmbedSchema fl)) = Inr sch \<and> j = raw"
    proof (intro allI impI)
      fix sch j r assume "Validate sch j r \<in> set (fst (check_schema fl w v raw))"
      from embedded_events [OF h this] check_dump_quiet [of "Validate sch j r" fl w v]
      show "load_and_compile w (EmbeddedDefault (rawEmbedSchema fl)) = Inr sch \<and> j = raw"
        by (auto simp add: load_and_compile_def)
    qed
    from a b c show ?thesis by blast
  qed
  have 1: "schemaFetchOnline fl \<or> rawEmbedSchema fl = '''' \<longrightarrow>
        take 2 (fst (check_schema fl w v raw)) =
          [Print (''Using schema '' @ onlineSchemaPath (KrakendVersion w) @ nl),
           CompileLoader (onlineSchemaPath (KrakendVersion w))
             (compiler_Compile_loader w (onlineSchemaPath (KrakendVersion w)))] \<and>
        (\<forall>e \<in> set (fst (check_schema fl w v raw)). schema_loading e \<longrightarrow>
           e = CompileLoader (onlineSchemaPath (KrakendVersion w))
                 (compiler_Compile_loader w (onlineSchemaPath (KrakendVersion w))))"
    using loader [of "onlineSchemaPath (KrakendVersion w)"] online_not_empty by auto
  have 2: "\<not> schemaFetchOnline fl \<and> rawEmbedSchema fl \<noteq> '''' \<and> schemaPath fl \<noteq> '''' \<longrightarrow>
        take 2 (fst (check_schema fl w v raw)) =
          [Print (''Using schema '' @ schemaPath fl @ nl),
           CompileLoader (schemaPath fl) (compiler_Compile_loader w (schemaPath fl))] \<and>
        (\<forall>e \<in> set (fst (check_schema fl w v raw)). schema_loading e \<longrightarrow>
           e = CompileLoader (schemaPath fl) (compiler_Compile_loader w (schemaPath fl)))"
    using loader [of "schemaPath fl"] by auto
  have 3: "\<not> schemaFetchOnline fl \<and> rawEmbedSchema fl \<noteq> '''' \<and> schemaPath fl = '''' \<longrightarrow>
        hd (fst (check_schema fl w v raw)) =
          UnmarshalEmbedded (rawEmbedSchema fl) (jsonschema_UnmarshalJSON w (rawEmbedSchema fl)) \<and>
        (\<forall>e \<in> set (fst (check_schema fl w v raw)). \<not> outside_access e)"
    using embedded by blast
  have 4: "\<exists>src. resolveSchemaSource (schemaPath fl) (schemaFetchOnline fl) (rawEmbedSchema fl)
              (KrakendVersion w) = Inr src \<and>
        (\<forall>sch j r. Validate sch j r \<in> set (fst (check_schema fl w v raw)) \<longrightarrow>
           load_and_compile w src = Inr sch \<and> j = raw)"
  proof (cases "schemaFetchOnline fl \<or> rawEmbedSchema fl = []")
    case True
    then have "resolveSchemaSource (schemaPath fl) (schemaFetchOnline fl) (rawEmbedSchema fl)
              (KrakendVersion w) = Inr (OnlineDefault (onlineSchemaPath (KrakendVersion w)))"
      using assms by (auto simp add: resolveSchemaSource_def)
    moreover have "\<forall>sch j r. Validate sch j r \<in> set (fst (check_schema fl w v raw)) \<longrightarrow>
           load_and_compile w (OnlineDefault (onlineSchemaPath (KrakendVersion w))) = Inr sch \<and> j = raw"
      using loader [of "onlineSchemaPath (KrakendVersion w)"] online_not_empty True
      by (simp add: load_and_compile_def)
    ultimately show ?thesis by blast
  next
    case False
    show ?thesis
    proof (cases "schemaPath fl = []")
      case custom: False
      then have "resolveSchemaSource (schemaPath fl) (schemaFetchOnline fl) (rawEmbedSchema fl)
              (KrakendVersion w) = Inr (CustomLocation (schemaPath fl))"
        using False by (auto simp add: resolveSchemaSource_def)
      moreover have "\<forall>sch j r. Validate sch j r \<in> set (fst (check_schema fl w v raw)) \<longrightarrow>
           load_and_compile w (CustomLocation (schemaPath fl)) = Inr sch \<and> j = raw"
        using loader [of "schemaPath fl"] custom False
        by (simp add: load_and_compile_def)
      ultimately show ?thesis by blast
    next
      case True
      then have "resolveSchemaSource (schemaPath fl) (schemaFetchOnline fl) (rawEmbedSchema fl)
              (KrakendVersion w) = Inr (EmbeddedDefault (rawEmbedSchema fl))"
        using False by (auto simp add: resolveSchemaSource_def)
      moreover have "\<forall>sch j r. Validate sch j r \<in> set (fst (check_schema fl w v raw)) \<longrightarrow>
           load_and_compile w (EmbeddedDefault (rawEmbedSchema fl)) = Inr sch \<and> j = raw"
        using embedded True False by blast
      ultimately show ?thesis by blast
    qed
  qed
  from 1 2 3 4 show ?thesis by blast
qed

lemma example_online_location:
  "onlineSchemaPath ''2.7.1'' = ''https://www.krakend.io/schema/v2.7/krakend.json''"
  by code_simp

theorem schema_source_selection_witness:
  "schemaPath (custom_flags\<lparr>rawEmbedSchema := ''''\<rparr>) = ''file:///etc/schema.json'' \<and>
   rawEmbedSchema (custom_flags\<lparr>rawEmbedSchema := ''''\<rparr>) = '''' \<and>
   take 2 (fst (check_schema (custom_flags\<lparr>rawEmbedSchema := ''''\<rparr>) example_world example_config ''{}'')) =
     [Print (''Using schema https://www.krakend.io/schema/v2.7/krakend.json'' @ nl),
      CompileLoader ''https://www.krakend.io/schema/v2.7/krakend.json''
        (Inr ''https://www.krakend.io/schema/v2.7/krakend.json'')] \<and>
   schemaFetchOnline online_flags \<and>
   take 2 (fst (check_schema online_flags example_world example_config ''{}'')) =
     [Print (''Using schema https://www.krakend.io/schema/v2.7/krakend.json'' @ nl),
      CompileLoader ''https://www.krakend.io/schema/v2.7/krakend.json''
        (Inr ''https://www.krakend.io/schema/v2.7/krakend.json'')] \<and>
   \<not> schemaFetchOnline custom_flags \<and> rawEmbedSchema custom_flags = ''{}'' \<and>
   take 2 (fst (check_schema custom_flags example_world example_config ''{}'')) =
     [Print (''Using schema file:///etc/schema.json'' @ nl),
      CompileLoader ''file:///etc/schema.json'' (Inr ''file:///etc/schema.json'')] \<and>
   \<not> schemaFetchOnline example_flags \<and> rawEmbedSchema example_flags = ''{}'' \<and>
   schemaPath example_flags = '''' \<and>
   hd (fst (check_schema example_flags example_world example_config ''{}'')) =
     UnmarshalEmbedded ''{}'' (Inr ''{}'')"
proof -
  have ver: "KrakendVersion example_world = ''2.7.1''"
    and load: "\<And>p. compiler_Compile_loader example_world p = Inr p"
    and parse: "\<And>b. jsonschema_UnmarshalJSON example_world b = Inr b"
    by (simp_all add: example_world_def)
  have f1: "schemaPath (custom_flags\<lparr>rawEmbedSchema := ''''\<rparr>) = ''file:///etc/schema.json''"
    "rawEmbedSchema (custom_flags\<lparr>rawEmbedSchema := ''''\<rparr>) = ''''"
    "\<not> schemaFetchOnline (custom_flags\<lparr>rawEmbedSchema := ''''\<rparr>)"
    by (simp_all add: custom_flags_def example_flags_def)
  have f2: "schemaFetchOnline online_flags" "schemaPath online_flags = ''''"
    by (simp_all add: online_flags_def example_flags_def)
  have f3: "\<not> schemaFetchOnline custom_flags" "rawEmbedSchema custom_flags = ''{}''"
    "schemaPath custom_flags = ''file:///etc/schema.json''"
    by (simp_all add: custom_flags_def example_flags_def)
  have f4: "\<not> schemaFetchOnline example_flags" "rawEmbedSchema example_flags = ''{}''"
    "schemaPath example_flags = ''''"
    by (simp_all add: example_flags_def)
  have n1: "\<not> (schemaPath (custom_flags\<lparr>rawEmbedSchema := ''''\<rparr>) \<noteq> '''' \<and>
                schemaFetchOnline (custom_flags\<lparr>rawEmbedSchema := ''''\<rparr>))"
    using f1 by simp
  have n2: "\<not> (schemaPath online_flags \<noteq> '''' \<and> schemaFetchOnline online_flags)"
    using f2 by simp
  have n3: "\<not> (schemaPath custom_flags \<noteq> '''' \<and> schemaFetchOnline custom_flags)"
    using f3 by simp
  have n4: "\<not> (schemaPath example_flags \<noteq> '''' \<and> schemaFetchOnline example_flags)"
    using f4 by simp
  note t1 = schema_source_selection [OF n1, of example_world example_config "''{}''"]
  note t2 = schema_source_selection [OF n2, of example_world example_config "''{}''"]
  note t3 = schema_source_selection [OF n3, of example_world example_config "''{}''"]
  note t4 = schema_source_selection [OF n4, of example_world example_config "''{}''"]
  from t1 f1 have 1:
    "take 2 (fst (check_schema (custom_flags\<lparr>rawEmbedSchema := ''''\<rparr>) example_world example_config ''{}'')) =
       [Print (''Using schema '' @ onlineSchemaPath (KrakendVersion example_world) @ nl),
        CompileLoader (onlineSchemaPath (KrakendVersion example_world))
          (compiler_Compile_loader example_world (onlineSchemaPath (KrakendVersion example_world)))]"
    by blast
  from t2 f2 have 2:
    "take 2 (fst (check_schema online_flags example_world example_config ''{}'')) =
       [Print (''Using schema '' @ onlineSchemaPath (KrakendVersion example_world) @ nl),
        CompileLoader (onlineSchemaPath (KrakendVersion example_world))
          (compiler_Compile_loader example_world (onlineSchemaPath (KrakendVersion example_world)))]"
    by blast
  from t3 f3 have 3:
    "take 2 (fst (check_schema custom_flags example_world example_config ''{}'')) =
       [Print (''Using schema '' @ schemaPath custom_flags @ nl),
        CompileLoader (schemaPath custom_flags)
          (compiler_Compile_loader example_world (schemaPath custom_flags))]"
    by simp
  from t4 f4 have 4:
    "hd (fst (check_schema example_flags example_world example_config ''{}'')) =
       UnmarshalEmbedded (rawEmbedSchema example_flags)
         (jsonschema_UnmarshalJSON example_world (rawEmbedSchema example_flags))"
    by simp
  from 1 2 3 4 f1 f2 f3 f4 show ?thesis
    by (simp add: ver load parse example_online_location)
qed

section \<open>The pipeline as a whole\<close>

lemma check_routes_positions:
  "List.map_filter rank (fst (check_routes fl w v)) = (if checkGinRoutes fl then [8] else [])"
proof (cases "router_Run w (simulation_config fl v)")
  case Completes
  then show ?thesis by (simp add: check_routes_def RunRouterFunc_Completes)
next
  case (Panics r)
  show ?thesis
  proof (cases "\<exists>s. r = StringValue s")
    case True
    then obtain s where "r = StringValue s" by blast
    with Panics show ?thesis by (simp add: check_routes_def RunRouterFunc_Panics_string)
  next
    case False
    with Panics show ?thesis by (simp add: check_routes_def RunRouterFunc_Panics_other)
  qed
qed

lemma check_dump_positions:
  "snd (check_dump fl w v) = Returned \<Longrightarrow>
     List.map_filter rank (fst (check_dump fl w v)) =
       (if debug fl > 0 then [7] else []) @ (if checkGinRoutes fl then [8] else [])"
  by (cases "dumper_Dump w (checkDumpPrefix fl) (debug fl) (IsTTY fl) v")
    (simp_all add: check_dump_def check_routes_positions split: if_splits)

lemma check_validate_positions:
  "snd (check_validate fl w v raw sch) = Returned \<Longrightarrow>
     List.map_filter rank (fst (check_validate fl w v raw sch)) =
       6 # (if debug fl > 0 then [7] else []) @ (if checkGinRoutes fl then [8] else [])"
  by (cases "sch_Validate w sch raw") (simp_all add: check_validate_def check_dump_positions)

lemma check_schema_positions:
  assumes "snd (check_schema fl w v raw) = Returned"
  shows "List.map_filter rank (fst (check_schema fl w v raw)) =
       4 # (if schemaFetchOnline fl \<or> rawEmbedSchema fl = [] \<or> schemaPath fl \<noteq> [] then [] else [5]) @
       6 # (if debug fl > 0 then [7] else []) @ (if checkGinRoutes fl then [8] else [])"
proof -
  have nc: "\<not> (schemaPath fl \<noteq> [] \<and> schemaFetchOnline fl)"
    using assms by (auto simp add: check_schema_conflict)
  show ?thesis
  proof (cases "schemaFetchOnline fl \<or> rawEmbedSchema fl = [] \<or> schemaPath fl \<noteq> []")
    case True
    define p where "p = (if schemaFetchOnline fl \<or> rawEmbedSchema fl = []
              then onlineSchemaPath (KrakendVersion w) else schemaPath fl)"
    have "p \<noteq> []"
      using True by (auto simp add: p_def onlineSchemaPath_def onlineSchemaPath_not_empty)
    note eq = check_schema_loader [OF nc p_def this, of v raw]
    show ?thesis
      using assms True unfolding eq
      by (cases "compiler_Compile_loader w p") (simp_all add: check_validate_positions)
  next
    case False
    then have h: "\<not> schemaFetchOnline fl" "rawEmbedSchema fl \<noteq> []" "schemaPath fl = []"
      by simp_all
    note eq = check_schema_embedded [OF h, of w v raw]
    show ?thesis
    proof (cases "jsonschema_UnmarshalJSON w (rawEmbedSchema fl)")
      case (Inl err)
      with assms show ?thesis unfolding eq by simp
    next
      case (Inr d)
      with assms False show ?thesis unfolding eq
        by (cases "compiler_Compile_resource w ''schema.json'' d")
          (simp_all add: check_validate_positions)
    qed
  qed
qed

lemma check_lint_positions:
  assumes "snd (check_lint fl w v) = Returned"
  shows "List.map_filter rank (fst (check_lint fl w v)) =
       (if schemaValidation fl
        then [2, 3, 4] @
             (if schemaFetchOnline fl \<or> rawEmbedSchema fl = [] \<or> schemaPath fl \<noteq> []
              then [] else [5]) @ [6]
        else []) @
       (if debug fl > 0 then [7] else []) @ (if checkGinRoutes fl then [8] else [])"
proof (cases "schemaValidation fl")
  case False
  with assms show ?thesis by (simp add: check_lint_def check_dump_positions)
next
  case True
  show ?thesis
  proof (cases "snd (load_content fl w)")
    case (Inl err)
    with assms True show ?thesis by (simp add: check_lint_def)
  next
    case (Inr data)
    show ?thesis
    proof (cases "json_Unmarshal w data")
      case (Inl err)
      with assms True Inr show ?thesis by (simp add: check_lint_def)
    next
      case raw: (Inr raw)
      with assms True Inr have "snd (check_schema fl w v raw) = Returned"
        by (simp add: check_lint_def)
      from check_schema_positions [OF this] True Inr raw show ?thesis
        by (simp add: check_lint_def)
    qed
  qed
qed

lemma checkFunc_positions:
  assumes "snd (checkFunc fl w) = Returned"
  shows "List.map_filter rank (fst (checkFunc fl w)) = requested_positions fl"
proof -
  from assms have cfg: "cfgFile fl \<noteq> []"
    by (auto simp add: checkFunc_def split: if_splits)
  show ?thesis
  proof (cases "parser_Parse w (cfgFile fl)")
    case (Inl err)
    with assms cfg show ?thesis by (simp add: checkFunc_def)
  next
    case (Inr v)
    with assms cfg have "snd (check_lint fl w v) = Returned"
      by (simp add: checkFunc_def)
    from check_lint_positions [OF this] cfg Inr show ?thesis
      by (simp add: checkFunc_def requested_positions_def)
  qed
qed

text \<open>
  Claim C7. In every run of \<open>checkFunc\<close> the collaborators are called in the order of
  the pipeline, each position at most once (parse, raw bytes, JSON, schema loading,
  schema compilation, validation, dump, route simulation); no collaborator is called
  after a call that failed; a failed call makes the exit status non-zero; the status is
  zero exactly when every requested stage succeeds, and then \<open>checkFunc\<close> returns, the
  calls made are exactly those of the requested stages, and the confirmation is the last
  thing it printed; otherwise the process ends by
  \<^verbatim>\<open>os.Exit(1)\<close> or by the panic that left the route simulation.
\<close>

theorem checkFunc_pipeline:
  "sorted_wrt (<) (List.map_filter rank (fst (checkFunc fl w))) \<and>
   (\<forall>e \<in> set (butlast (calls (fst (checkFunc fl w)))). \<not> failed e) \<and>
   ((\<exists>e \<in> set (fst (checkFunc fl w)). failed e) \<longrightarrow> exit_status (snd (checkFunc fl w)) \<noteq> 0) \<and>
   ((exit_status (snd (checkFunc fl w)) = 0) = all_requested_stages_succeed fl w) \<and>
   (all_requested_stages_succeed fl w \<longrightarrow>
      snd (checkFunc fl w) = Returned \<and>
      List.map_filter rank (fst (checkFunc fl w)) = requested_positions fl \<and>
      last (fst (checkFunc fl w)) = syntax_ok fl w) \<and>
   (\<not> all_requested_stages_succeed fl w \<longrightarrow>
      snd (checkFunc fl w) = Exited 1 \<or> snd (checkFunc fl w) = Crashed TypeAssertionError)"
proof -
  note o = orderly_checkFunc [of fl w, unfolded orderly_def list_all_iff]
  from o have 1: "sorted_wrt (<) (List.map_filter rank (fst (checkFunc fl w)))"
    by blast
  from o have 2: "\<forall>e \<in> set (butlast (calls (fst (checkFunc fl w)))). \<not> failed e"
    by blast
  from o have alt: "snd (checkFunc fl w) = Returned \<and> (\<forall>e \<in> set (fst (checkFunc fl w)). \<not> failed e) \<and>
      last (fst (checkFunc fl w)) = syntax_ok fl w
    \<or> snd (checkFunc fl w) = Exited 1 \<or> snd (checkFunc fl w) = Crashed TypeAssertionError"
    by blast
  have 3: "(\<exists>e \<in> set (fst (checkFunc fl w)). failed e) \<longrightarrow> exit_status (snd (checkFunc fl w)) \<noteq> 0"
    using alt by auto
  have 4: "(exit_status (snd (checkFunc fl w)) = 0) = all_requested_stages_succeed fl w"
    using alt by (auto simp add: checkFunc_Returned [symmetric])
  have 5: "all_requested_stages_succeed fl w \<longrightarrow>
      snd (checkFunc fl w) = Returned \<and>
      List.map_filter rank (fst (checkFunc fl w)) = requested_positions fl \<and>
      last (fst (checkFunc fl w)) = syntax_ok fl w"
    using alt checkFunc_positions [of fl w] by (auto simp add: checkFunc_Returned [symmetric])
  have 6: "\<not> all_requested_stages_succeed fl w \<longrightarrow>
      snd (checkFunc fl w) = Exited 1 \<or> snd (checkFunc fl w) = Crashed TypeAssertionError"
    using alt by (auto simp add: checkFunc_Returned [symmetric])
  from 1 2 3 4 5 6 show ?thesis by blast
qed

lemma example_all_succeed: "all_requested_stages_succeed example_flags example_world"
  by (simp add: all_requested_stages_succeed_def lint_succeeds_def resolveSchemaSource_def
      load_and_compile_def example_flags_def example_world_def)

lemma bad_schema_trace:
  "fst (checkFunc example_flags world_bad_schema) =
     [Print (''Parsing configuration file: krakend.json'' @ nl),
      Parse ''krakend.json'' (Inr example_config),
      Print (''Linting configuration file...'' @ nl),
      LastSource (Inr ''{}''),
      JsonUnmarshal ''{}'' (Inr ''{}''),
      UnmarshalEmbedded ''{}'' (Inr ''{}''),
      CompileResource ''schema.json'' ''{}'' (Inl ''invalid schema''),
      Print (''ERROR compiling the embed schema:'' @ tab @ ''invalid schema'' @ nl @ nl)]"
  by (simp add: checkFunc_def check_lint_def check_schema_def load_content_def Let_def
      world_bad_schema_def example_world_def example_flags_def errorMsg_def Println_def
      tab_def nl_def)

theorem checkFunc_pipeline_witness:
  "all_requested_stages_succeed example_flags example_world \<and>
   snd (checkFunc example_flags example_world) = Returned \<and>
   List.map_filter rank (fst (checkFunc example_flags example_world)) = [1, 2, 3, 4, 5, 6, 7, 8] \<and>
   last (fst (checkFunc example_flags example_world)) = Print (''Syntax OK!'' @ nl) \<and>
   failed (CompileResource ''schema.json'' ''{}'' (Inl ''invalid schema'') :: (unit, string, string, string) event) \<and>
   CompileResource ''schema.json'' ''{}'' (Inl ''invalid schema'') \<in> set (fst (checkFunc example_flags world_bad_schema)) \<and>
   exit_status (snd (checkFunc example_flags world_bad_schema)) \<noteq> 0 \<and>
   \<not> all_requested_stages_succeed example_flags world_bad_schema"
proof -
  note good = checkFunc_pipeline [of example_flags example_world]
  note bad = checkFunc_pipeline [of example_flags world_bad_schema]
  from good example_all_succeed
  have 1: "snd (checkFunc example_flags example_world) = Returned"
    and 2: "last (fst (checkFunc example_flags example_world)) = syntax_ok example_flags example_world"
    and 8: "List.map_filter rank (fst (checkFunc example_flags example_world))
              = requested_positions example_flags"
    by blast+
  have 9: "requested_positions example_flags = [1, 2, 3, 4, 5, 6, 7, 8]"
    by (simp add: requested_positions_def example_flags_def)
  have 3: "syntax_ok example_flags example_world = Print (''Syntax OK!'' @ nl)"
    by (simp add: syntax_ok_def Println_def example_flags_def)
  have 4: "CompileResource ''schema.json'' ''{}'' (Inl ''invalid schema'')
             \<in> set (fst (checkFunc example_flags world_bad_schema))"
    by (simp add: bad_schema_trace)
  have 5: "failed (CompileResource ''schema.json'' ''{}'' (Inl ''invalid schema'') :: (unit, string, string, string) event)"
    by simp
  from bad 4 5 have 6: "exit_status (snd (checkFunc example_flags world_bad_schema)) \<noteq> 0"
    by blast
  from bad 6 have 7: "\<not> all_requested_stages_succeed example_flags world_bad_schema"
    by blast
  from example_all_succeed 1 2 3 4 5 6 7 8 9 show ?thesis by simp
qed

end
